theory Spec2Isabelle
  imports Main "HOL-Library.Sublist"
begin

section \<open>Data model\<close>

text \<open>
  The management console keeps two JSON documents on disk (\<open>data/config.json\<close> and
  \<open>data/ips.json\<close>), generates the forwarder configuration \<open>smartdns.conf\<close> from them and
  writes three log files. The JSON documents are modelled with the shape that
  \<open>defaultConfig\<close> and \<open>defaultIpList\<close> of \<open>config.js\<close> give them: numbers are integers,
  names and addresses are strings. The three sections of the settings object are optional,
  since \<open>POST /api/settings\<close> tests their presence, and so is the password, since
  \<open>GET /api/settings\<close> tests it.
\<close>

record domain_entry =
  domain :: string
  resolveVia :: string

record domain_list =
  domains :: "domain_entry list"

record dns_server =
  port :: int
  cacheSize :: int
  logQueries :: bool

record web_interface =
  web_port :: int
  enableAuth :: bool
  username :: string
  password :: "string option"

record settings =
  dnsServer :: "dns_server option"
  alternativeDNS :: "string list option"
  webInterface :: "web_interface option"

definition defaultConfig :: settings where
  "defaultConfig =
     \<lparr>dnsServer = Some \<lparr>port = 53, cacheSize = 1000, logQueries = True\<rparr>,
      alternativeDNS = Some [''8.8.8.8'', ''1.1.1.1''],
      webInterface = Some \<lparr>web_port = 5000, enableAuth = False, username = ''admin'',
                            password = Some ''admin''\<rparr>\<rparr>"

definition defaultIpList :: domain_list where
  "defaultIpList =
     \<lparr>domains = [\<lparr>domain = ''netflix.com'', resolveVia = ''1.1.1.1''\<rparr>,
                 \<lparr>domain = ''spotify.com'', resolveVia = ''8.8.8.8''\<rparr>]\<rparr>"

text \<open>JSON values, for the bodies of HTTP responses.\<close>

datatype json =
    JNull
  | JBool bool
  | JNum int
  | JStr string
  | JArr "json list"
  | JObj "(string \<times> json) list"

record response =
  status :: nat
  body :: json

section \<open>The world: files, console, clock\<close>

datatype path =
    CONFIG_PATH
  | IPS_PATH
  | CUSTOM_CONFIG_FILE
  | reportPath
  | accessLogPath
  | errorLogPath
  | dnsLogPath

text \<open>
  A JSON file is absent, present but not readable, readable but not parseable, or holds a
  value; \<open>fs.readFile\<close> followed by \<open>JSON.parse\<close> fails in the first three states.
\<close>

datatype 'a json_file = Missing | Unreadable | Malformed | Holds 'a

datatype js_error =
    ENOENT path
  | EACCES path
  | SyntaxError path
  | TypeError string

record bypass_report =
  timestamp :: string
  totalDomains :: nat
  report_domains :: "domain_entry list"
  dnsServers :: "(string \<times> nat) list"

text \<open>
  \<open>denied\<close> tells on which paths a write or an append fails. The clock and the random
  generator are inputs: \<open>iso_time w d\<close> is \<open>new Date(Date.now() + d).toISOString()\<close>,
  \<open>locale_time w d\<close> the same instant through \<open>toLocaleString()\<close>, \<open>random48\<close> is
  \<open>Math.floor(Math.random() * 48)\<close> and \<open>config_mtime\<close> the modification time of
  \<open>config.json\<close> through \<open>toLocaleString()\<close>. The model reads the clock and does not
  advance it.
\<close>

record world =
  config_json :: "settings json_file"
  ips_json :: "domain_list json_file"
  report_json :: "bypass_report option"
  texts :: "path \<Rightarrow> string option"
  console :: "string list"
  denied :: "path \<Rightarrow> bool"
  iso_time :: "int \<Rightarrow> string"
  locale_time :: "int \<Rightarrow> string"
  random48 :: nat
  config_mtime :: string

abbreviation nl :: char where
  "nl \<equiv> CHR 0x0A"

section \<open>Asynchronous functions as state transformers with errors\<close>

text \<open>
  An \<open>async\<close> function takes the world and returns the new world with either the thrown
  error (\<open>Inl\<close>) or the value. Calls that the source does not \<open>await\<close> (most calls of the
  logger) are run in program order.
\<close>

type_synonym 'a io = "world \<Rightarrow> (js_error + 'a) \<times> world"

definition return_io :: "'a \<Rightarrow> 'a io" where
  "return_io x w = (Inr x, w)"

definition throw_io :: "js_error \<Rightarrow> 'a io" where
  "throw_io e w = (Inl e, w)"

definition bind_io :: "'a io \<Rightarrow> ('a \<Rightarrow> 'b io) \<Rightarrow> 'b io" where
  "bind_io m f w = (case m w of (Inl e, w') \<Rightarrow> (Inl e, w') | (Inr x, w') \<Rightarrow> f x w')"

definition then_io :: "'a io \<Rightarrow> 'b io \<Rightarrow> 'b io" where
  "then_io m n = bind_io m (\<lambda>_. n)"

definition catch_io :: "'a io \<Rightarrow> (js_error \<Rightarrow> 'a io) \<Rightarrow> 'a io" where
  "catch_io m h w = (case m w of (Inl e, w') \<Rightarrow> h e w' | (Inr x, w') \<Rightarrow> (Inr x, w'))"

fun path_name :: "path \<Rightarrow> string" where
  "path_name CONFIG_PATH = ''data/config.json''"
| "path_name IPS_PATH = ''data/ips.json''"
| "path_name CUSTOM_CONFIG_FILE = ''data/dns_config/smartdns.conf''"
| "path_name reportPath = ''data/bypass_report.json''"
| "path_name accessLogPath = ''logs/access.log''"
| "path_name errorLogPath = ''logs/error.log''"
| "path_name dnsLogPath = ''logs/dns.log''"

text \<open>\<open>error.message\<close>: the text is the runtime's; only its place in a log line matters.\<close>

fun message :: "js_error \<Rightarrow> string" where
  "message (ENOENT p) = ''ENOENT: no such file or directory, open '' @ path_name p"
| "message (EACCES p) = ''EACCES: permission denied, open '' @ path_name p"
| "message (SyntaxError p) = ''Unexpected token in JSON''"
| "message (TypeError s) = s"

subsection \<open>File system and console\<close>

definition console_log :: "string \<Rightarrow> unit io" where
  "console_log s w = (Inr (), w\<lparr>console := console w @ [s]\<rparr>)"

definition appendFile :: "path \<Rightarrow> string \<Rightarrow> unit io" where
  "appendFile p data w =
     (if denied w p then (Inl (EACCES p), w)
      else (Inr (), w\<lparr>texts := (texts w)(p \<mapsto>
              (case texts w p of None \<Rightarrow> data | Some old \<Rightarrow> old @ data))\<rparr>))"

definition writeFile :: "path \<Rightarrow> string \<Rightarrow> unit io" where
  "writeFile p data w =
     (if denied w p then (Inl (EACCES p), w)
      else (Inr (), w\<lparr>texts := (texts w)(p \<mapsto> data)\<rparr>))"

definition readFile :: "path \<Rightarrow> string io" where
  "readFile p w = (case texts w p of None \<Rightarrow> (Inl (ENOENT p), w) | Some s \<Rightarrow> (Inr s, w))"

definition access :: "path \<Rightarrow> unit io" where
  "access p w = (case texts w p of None \<Rightarrow> (Inl (ENOENT p), w) | Some s \<Rightarrow> (Inr (), w))"

text \<open>\<open>new Date(Date.now() + d).toISOString()\<close> and \<open>.toLocaleString()\<close>.\<close>

definition toISOString :: "int \<Rightarrow> string io" where
  "toISOString d w = (Inr (iso_time w d), w)"

definition toLocaleString :: "int \<Rightarrow> string io" where
  "toLocaleString d w = (Inr (locale_time w d), w)"

text \<open>\<open>fs.writeFile(CONFIG_PATH, JSON.stringify(config, null, 2))\<close> and its reading back.\<close>

definition writeFile_config :: "settings \<Rightarrow> unit io" where
  "writeFile_config v w =
     (if denied w CONFIG_PATH then (Inl (EACCES CONFIG_PATH), w)
      else (Inr (), w\<lparr>config_json := Holds v\<rparr>))"

definition writeFile_ips :: "domain_list \<Rightarrow> unit io" where
  "writeFile_ips v w =
     (if denied w IPS_PATH then (Inl (EACCES IPS_PATH), w)
      else (Inr (), w\<lparr>ips_json := Holds v\<rparr>))"

definition writeFile_report :: "bypass_report \<Rightarrow> unit io" where
  "writeFile_report v w =
     (if denied w reportPath then (Inl (EACCES reportPath), w)
      else (Inr (), w\<lparr>report_json := Some v\<rparr>))"

fun parse_file :: "path \<Rightarrow> 'a json_file \<Rightarrow> js_error + 'a" where
  "parse_file p Missing = Inl (ENOENT p)"
| "parse_file p Unreadable = Inl (EACCES p)"
| "parse_file p Malformed = Inl (SyntaxError p)"
| "parse_file p (Holds v) = Inr v"

definition readFile_config :: "settings io" where
  "readFile_config w = (parse_file CONFIG_PATH (config_json w), w)"

definition readFile_ips :: "domain_list io" where
  "readFile_ips w = (parse_file IPS_PATH (ips_json w), w)"

definition access_config :: "unit io" where
  "access_config w =
     (if config_json w = Missing then (Inl (ENOENT CONFIG_PATH), w) else (Inr (), w))"

definition access_ips :: "unit io" where
  "access_ips w =
     (if ips_json w = Missing then (Inl (ENOENT IPS_PATH), w) else (Inr (), w))"

section \<open>logger.js\<close>

definition is_space :: "char \<Rightarrow> bool" where
  "is_space c \<longleftrightarrow> c \<in> {CHR '' '', CHR 0x09, CHR 0x0A, CHR 0x0B, CHR 0x0C, CHR 0x0D}"

definition trim :: "string \<Rightarrow> string" where
  "trim s = rev (dropWhile is_space (rev (dropWhile is_space s)))"

definition formatLogMessage :: "string \<Rightarrow> world \<Rightarrow> string" where
  "formatLogMessage msg w = ''['' @ iso_time w 0 @ ''] '' @ msg @ [nl]"

definition logger_info :: "string \<Rightarrow> unit io" where
  "logger_info msg w =
     (let formattedMessage = formatLogMessage (''INFO: '' @ msg) w in
      then_io (console_log (trim formattedMessage))
        (catch_io (appendFile accessLogPath formattedMessage)
           (\<lambda>err. console_log (''Failed to write to access log: '' @ message err))) w)"

definition logger_error :: "string \<Rightarrow> unit io" where
  "logger_error msg w =
     (let formattedMessage = formatLogMessage (''ERROR: '' @ msg) w in
      then_io (console_log (trim formattedMessage))
        (catch_io (appendFile errorLogPath formattedMessage)
           (\<lambda>err. console_log (''Failed to write to error log: '' @ message err))) w)"

definition logger_dnsQuery :: "string \<Rightarrow> string \<Rightarrow> unit io" where
  "logger_dnsQuery query resp w =
     (let formattedMessage = formatLogMessage (''DNS QUERY: '' @ query @ '' -> '' @ resp) w in
      catch_io (appendFile dnsLogPath formattedMessage)
        (\<lambda>err. console_log (''Failed to write to DNS log: '' @ message err)) w)"

section \<open>config.js\<close>

definition ensureConfigExists :: "unit io" where
  "ensureConfigExists =
     then_io
       (catch_io access_config
          (\<lambda>err. then_io (logger_info ''Creating default configuration file'')
                    (writeFile_config defaultConfig)))
       (catch_io access_ips
          (\<lambda>err. then_io (logger_info ''Creating default IP list file'')
                    (writeFile_ips defaultIpList)))"

definition getConfig :: "settings io" where
  "getConfig = then_io ensureConfigExists readFile_config"

definition getDomainList :: "domain_list io" where
  "getDomainList = then_io ensureConfigExists readFile_ips"

definition saveConfig :: "settings \<Rightarrow> bool io" where
  "saveConfig config =
     then_io (writeFile_config config)
       (then_io (logger_info ''Configuration saved successfully'') (return_io True))"

definition saveDomainList :: "domain_entry list \<Rightarrow> bool io" where
  "saveDomainList ds =
     then_io (writeFile_ips \<lparr>domains = ds\<rparr>)
       (then_io (logger_info ''Domain list saved successfully'') (return_io True))"

text \<open>\<open>Array.prototype.findIndex\<close>: the first index where the test holds, \<open>None\<close> for -1.\<close>

fun findIndex :: "('a \<Rightarrow> bool) \<Rightarrow> 'a list \<Rightarrow> nat option" where
  "findIndex P [] = None"
| "findIndex P (x # xs) =
     (if P x then Some 0 else map_option Suc (findIndex P xs))"

definition config_addDomain :: "string \<Rightarrow> string \<Rightarrow> domain_list io" where
  "config_addDomain d via =
     bind_io getDomainList (\<lambda>domainList.
       let existingIndex = findIndex (\<lambda>e. domain e = d) (domains domainList);
           domainList' =
             (case existingIndex of
                Some i \<Rightarrow> domainList\<lparr>domains :=
                            (domains domainList)[i := (domains domainList ! i)\<lparr>resolveVia := via\<rparr>]\<rparr>
              | None \<Rightarrow> domainList\<lparr>domains :=
                            domains domainList @ [\<lparr>domain = d, resolveVia = via\<rparr>]\<rparr>)
       in then_io (saveDomainList (domains domainList')) (return_io domainList'))"

definition config_removeDomain :: "string \<Rightarrow> domain_list io" where
  "config_removeDomain d =
     bind_io getDomainList (\<lambda>domainList.
       let domainList' = domainList\<lparr>domains := filter (\<lambda>e. domain e \<noteq> d) (domains domainList)\<rparr>
       in then_io (saveDomainList (domains domainList')) (return_io domainList'))"

section \<open>dnsconfig.js\<close>

text \<open>Template literals print an integer in decimal.\<close>

function string_of_nat :: "nat \<Rightarrow> string" where
  "string_of_nat n =
     (if n < 10 then [''0123456789'' ! n]
      else string_of_nat (n div 10) @ [''0123456789'' ! (n mod 10)])"
  by pat_completeness auto
termination
  by (relation "measure id") auto

declare string_of_nat.simps [simp del]

definition string_of_int :: "int \<Rightarrow> string" where
  "string_of_int i = (if i < 0 then CHR ''-'' # string_of_nat (nat (- i)) else string_of_nat (nat i))"

text \<open>
  The text that \<open>generateDnsmasqConfig\<close> builds before it writes the file. Reading
  \<open>appConfig.dnsServer.port\<close> or calling \<open>appConfig.alternativeDNS.forEach\<close> throws a
  \<open>TypeError\<close> when the section is absent. The guard \<open>domainList.domains &&
  domainList.domains.length > 0\<close> is the test that the list is not empty.
\<close>

definition configContent :: "string \<Rightarrow> settings \<Rightarrow> domain_list \<Rightarrow> js_error + string" where
  "configContent ts appConfig domainList =
     (case dnsServer appConfig of
        None \<Rightarrow> Inl (TypeError ''Cannot read properties of undefined (reading port)'')
      | Some ds \<Rightarrow>
          (case alternativeDNS appConfig of
             None \<Rightarrow> Inl (TypeError ''Cannot read properties of undefined (reading forEach)'')
           | Some alts \<Rightarrow>
               (let c0 = ''# Smart DNS Proxy Configuration'' @ [nl];
                    c1 = c0 @ ''# Generated at '' @ ts @ [nl, nl];
                    c2 = c1 @ ''# Basic configuration'' @ [nl];
                    c3 = c2 @ ''port='' @ string_of_int (port ds) @ [nl];
                    c4 = c3 @ ''cache-size='' @ string_of_int (cacheSize ds) @ [nl];
                    c5 = c4 @ ''log-queries='' @ (if logQueries ds then ''true'' else ''false'')
                            @ [nl, nl];
                    c6 = c5 @ ''# Alternative DNS servers'' @ [nl];
                    c7 = foldl (\<lambda>acc dns. acc @ ''server='' @ dns @ [nl]) c6 alts;
                    c8 = c7 @ [nl] @ ''# Domain specific configurations'' @ [nl];
                    c9 = (if domains domainList \<noteq> []
                          then foldl (\<lambda>acc item. acc @ ''server=/'' @ domain item @ ''/''
                                         @ resolveVia item @ [nl]) c8 (domains domainList)
                          else c8 @ ''# No domains configured yet'' @ [nl])
                in Inr c9)))"

definition generateDnsmasqConfig :: "settings \<Rightarrow> domain_list \<Rightarrow> unit io" where
  "generateDnsmasqConfig appConfig domainList =
     then_io (logger_info ''Generating DNS configuration'')
       (bind_io (toISOString 0) (\<lambda>ts.
          case configContent ts appConfig domainList of
            Inl e \<Rightarrow> throw_io e
          | Inr c \<Rightarrow>
              then_io (writeFile CUSTOM_CONFIG_FILE c)
                (logger_info (''DNS configuration generated at ''
                                @ path_name CUSTOM_CONFIG_FILE))))"

definition restartDnsmasq :: "bool io" where
  "restartDnsmasq =
     catch_io
       (then_io (logger_info ''Simulating DNS service restart'')
         (then_io (bind_io (toISOString 0) (\<lambda>ts.
                     appendFile dnsLogPath (''['' @ ts @ ''] INFO: DNS service restarted'' @ [nl])))
           (then_io (logger_info ''DNS service restart simulated successfully'')
             (return_io True))))
       (\<lambda>err. then_io (logger_error (''Failed to simulate DNS restart: '' @ message err))
                 (throw_io err))"

text \<open>The count of domains per resolver, an object whose keys are in insertion order.\<close>

fun count_server :: "(string \<times> nat) list \<Rightarrow> string \<Rightarrow> (string \<times> nat) list" where
  "count_server [] k = [(k, 1)]"
| "count_server ((k', n) # kvs) k =
     (if k' = k then (k', Suc n) # kvs else (k', n) # count_server kvs k)"

definition generateBypassReport :: "domain_list \<Rightarrow> unit io" where
  "generateBypassReport domainList =
     catch_io
       (bind_io (toISOString 0) (\<lambda>ts.
          then_io
            (writeFile_report
               \<lparr>timestamp = ts,
                totalDomains = length (domains domainList),
                report_domains = domains domainList,
                dnsServers = foldl (\<lambda>acc item. count_server acc (resolveVia item)) []
                               (domains domainList)\<rparr>)
            (logger_info (''Bypass report generated at '' @ path_name reportPath))))
       (\<lambda>err. logger_error (''Failed to generate bypass report: '' @ message err))"

definition updateDNSConfig :: "bool io" where
  "updateDNSConfig =
     catch_io
       (bind_io getConfig (\<lambda>appConfig.
        bind_io getDomainList (\<lambda>domainList.
          then_io (generateDnsmasqConfig appConfig domainList)
            (then_io restartDnsmasq
              (then_io (generateBypassReport domainList)
                (then_io (logger_info ''DNS configuration updated successfully'')
                  (return_io True)))))))
       (\<lambda>err. then_io (logger_error (''Failed to update DNS configuration: '' @ message err))
                 (throw_io err))"

definition dnsconfig_addDomain :: "string \<Rightarrow> string \<Rightarrow> bool io" where
  "dnsconfig_addDomain d via =
     catch_io
       (then_io (config_addDomain d via)
         (then_io updateDNSConfig
           (then_io (bind_io (toISOString 0) (\<lambda>ts.
                       appendFile dnsLogPath (''['' @ ts @ ''] INFO: Added domain '' @ d
                                                @ '' to bypass via '' @ via @ [nl])))
             (return_io True))))
       (\<lambda>err. then_io (logger_error (''Failed to add domain: '' @ message err))
                 (throw_io err))"

definition dnsconfig_removeDomain :: "string \<Rightarrow> bool io" where
  "dnsconfig_removeDomain d =
     catch_io
       (then_io (config_removeDomain d)
         (then_io updateDNSConfig
           (then_io (bind_io (toISOString 0) (\<lambda>ts.
                       appendFile dnsLogPath (''['' @ ts @ ''] INFO: Removed domain '' @ d
                                                @ '' from bypass list'' @ [nl])))
             (return_io True))))
       (\<lambda>err. then_io (logger_error (''Failed to remove domain: '' @ message err))
                 (throw_io err))"

section \<open>routes/api.js\<close>

subsection \<open>Regular expressions\<close>

text \<open>
  The two patterns of \<open>POST /api/domains\<close> are anchored at both ends, so \<open>test\<close> decides
  whether the whole string is in the language of the pattern. The matcher takes the
  derivative of the pattern by each character in turn.
\<close>

datatype regex =
    Never
  | Eps
  | Class "char \<Rightarrow> bool"
  | Seq regex regex
  | Alt regex regex
  | Between nat nat regex
  | AtLeast nat regex

fun nullable :: "regex \<Rightarrow> bool" where
  "nullable Never = False"
| "nullable Eps = True"
| "nullable (Class P) = False"
| "nullable (Seq r s) = (nullable r \<and> nullable s)"
| "nullable (Alt r s) = (nullable r \<or> nullable s)"
| "nullable (Between lo hi r) = (lo \<le> hi \<and> (lo = 0 \<or> nullable r))"
| "nullable (AtLeast n r) = (n = 0 \<or> nullable r)"

fun deriv :: "char \<Rightarrow> regex \<Rightarrow> regex" where
  "deriv c Never = Never"
| "deriv c Eps = Never"
| "deriv c (Class P) = (if P c then Eps else Never)"
| "deriv c (Seq r s) =
     (if nullable r then Alt (Seq (deriv c r) s) (deriv c s) else Seq (deriv c r) s)"
| "deriv c (Alt r s) = Alt (deriv c r) (deriv c s)"
| "deriv c (Between lo hi r) =
     (if hi = 0 \<or> hi < lo then Never else Seq (deriv c r) (Between (lo - 1) (hi - 1) r))"
| "deriv c (AtLeast n r) = Seq (deriv c r) (AtLeast (n - 1) r)"

definition test :: "regex \<Rightarrow> string \<Rightarrow> bool" where
  "test r s = nullable (foldl (\<lambda>r c. deriv c r) r s)"

definition lower :: "char \<Rightarrow> bool" where
  "lower c \<longleftrightarrow> c \<in> set ''abcdefghijklmnopqrstuvwxyz''"

definition upper :: "char \<Rightarrow> bool" where
  "upper c \<longleftrightarrow> c \<in> set ''ABCDEFGHIJKLMNOPQRSTUVWXYZ''"

definition digit :: "char \<Rightarrow> bool" where
  "digit c \<longleftrightarrow> c \<in> set ''0123456789''"

definition alpha :: "char \<Rightarrow> bool" where
  "alpha c \<longleftrightarrow> lower c \<or> upper c"

definition alnum :: "char \<Rightarrow> bool" where
  "alnum c \<longleftrightarrow> lower c \<or> upper c \<or> digit c"

definition alnum_hyphen :: "char \<Rightarrow> bool" where
  "alnum_hyphen c \<longleftrightarrow> lower c \<or> upper c \<or> digit c \<or> c = CHR ''-''"

definition dot :: "char \<Rightarrow> bool" where
  "dot c \<longleftrightarrow> c = CHR ''.''"

text \<open>\<^verbatim>\<open>/^[a-zA-Z0-9][a-zA-Z0-9-]{1,61}[a-zA-Z0-9](?:\.[a-zA-Z]{2,})+$/\<close>\<close>

definition DOMAIN_RE :: regex where
  "DOMAIN_RE =
     Seq (Class alnum)
       (Seq (Between 1 61 (Class alnum_hyphen))
         (Seq (Class alnum)
           (AtLeast 1 (Seq (Class dot) (AtLeast 2 (Class alpha))))))"

text \<open>\<^verbatim>\<open>/^(?:[0-9]{1,3}\.){3}[0-9]{1,3}$/\<close>\<close>

definition IP_RE :: regex where
  "IP_RE =
     Seq (Between 3 3 (Seq (Between 1 3 (Class digit)) (Class dot)))
       (Between 1 3 (Class digit))"

subsection \<open>The language of a pattern\<close>

text \<open>
  The set of strings that a pattern denotes, to state what the matcher decides, and the
  characters that the classes of a pattern admit.
\<close>

definition conc :: "string set \<Rightarrow> string set \<Rightarrow> string set" where
  "conc A B = {xs @ ys | xs ys. xs \<in> A \<and> ys \<in> B}"

fun lang_power :: "string set \<Rightarrow> nat \<Rightarrow> string set" where
  "lang_power A 0 = {[]}"
| "lang_power A (Suc n) = conc A (lang_power A n)"

fun lang :: "regex \<Rightarrow> string set" where
  "lang Never = {}"
| "lang Eps = {[]}"
| "lang (Class P) = {[c] | c. P c}"
| "lang (Seq r s) = conc (lang r) (lang s)"
| "lang (Alt r s) = lang r \<union> lang s"
| "lang (Between lo hi r) = (\<Union>k\<in>{lo..hi}. lang_power (lang r) k)"
| "lang (AtLeast n r) = (\<Union>k\<in>{n..}. lang_power (lang r) k)"

fun alphabet :: "regex \<Rightarrow> char \<Rightarrow> bool" where
  "alphabet Never c = False"
| "alphabet Eps c = False"
| "alphabet (Class P) c = P c"
| "alphabet (Seq r s) c = (alphabet r c \<or> alphabet s c)"
| "alphabet (Alt r s) c = (alphabet r c \<or> alphabet s c)"
| "alphabet (Between lo hi r) c = alphabet r c"
| "alphabet (AtLeast n r) c = alphabet r c"

subsection \<open>Handlers\<close>

text \<open>
  A handler takes the parsed request body and the world and returns the response with the
  new world. \<open>respond\<close> is the \<open>try { ... } catch (error) { logger.error(...);
  res.status(500).json(...) }\<close> around every handler.
\<close>

definition failure :: "string \<Rightarrow> js_error \<Rightarrow> response" where
  "failure msg e =
     \<lparr>status = 500,
      body = JObj [(''success'', JBool False), (''message'', JStr msg),
                   (''error'', JStr (message e))]\<rparr>"

definition bad_request :: "string \<Rightarrow> response" where
  "bad_request msg =
     \<lparr>status = 400, body = JObj [(''success'', JBool False), (''message'', JStr msg)]\<rparr>"

definition success :: "string \<Rightarrow> response" where
  "success msg =
     \<lparr>status = 200, body = JObj [(''success'', JBool True), (''message'', JStr msg)]\<rparr>"

definition respond :: "response io \<Rightarrow> string \<Rightarrow> string \<Rightarrow> world \<Rightarrow> response \<times> world" where
  "respond m place msg w =
     (case m w of
        (Inr r, w') \<Rightarrow> (r, w')
      | (Inl e, w') \<Rightarrow> (failure msg e, snd (logger_error (place @ message e) w')))"

record domains_body =
  body_domain :: "string option"
  body_resolveVia :: "string option"

text \<open>\<open>!domain\<close> holds of an absent field and of the empty string.\<close>

fun falsy :: "string option \<Rightarrow> bool" where
  "falsy None = True"
| "falsy (Some s) = (s = [])"

definition api_post_domains :: "domains_body \<Rightarrow> world \<Rightarrow> response \<times> world" where
  "api_post_domains b w =
     (case (body_domain b, body_resolveVia b) of
        (Some d, Some via) \<Rightarrow>
          if falsy (Some d) \<or> falsy (Some via)
          then (bad_request ''Domain and resolveVia are required'', w)
          else if \<not> test DOMAIN_RE d
          then (bad_request ''Invalid domain format'', w)
          else if \<not> test IP_RE via
          then (bad_request ''Invalid IP address format'', w)
          else respond
                 (then_io (dnsconfig_addDomain d via)
                    (return_io (success ''Domain added successfully'')))
                 ''Error in POST /api/domains: '' ''Failed to add domain'' w
      | _ \<Rightarrow> (bad_request ''Domain and resolveVia are required'', w))"

definition api_delete_domains :: "string \<Rightarrow> world \<Rightarrow> response \<times> world" where
  "api_delete_domains d w =
     (if d = [] then (bad_request ''Domain parameter is required'', w)
      else respond
             (then_io (dnsconfig_removeDomain d)
                (return_io (success ''Domain removed successfully'')))
             (''Error in DELETE /api/domains/'' @ d @ '': '') ''Failed to remove domain'' w)"

text \<open>\<open>res.json(settings)\<close>: an absent property is not printed.\<close>

definition opt_field :: "string \<Rightarrow> ('a \<Rightarrow> json) \<Rightarrow> 'a option \<Rightarrow> (string \<times> json) list" where
  "opt_field k f v = (case v of None \<Rightarrow> [] | Some x \<Rightarrow> [(k, f x)])"

definition dns_server_json :: "dns_server \<Rightarrow> json" where
  "dns_server_json ds =
     JObj [(''port'', JNum (port ds)), (''cacheSize'', JNum (cacheSize ds)),
           (''logQueries'', JBool (logQueries ds))]"

definition web_interface_json :: "web_interface \<Rightarrow> json" where
  "web_interface_json wi =
     JObj ([(''port'', JNum (web_port wi)), (''enableAuth'', JBool (enableAuth wi)),
            (''username'', JStr (username wi))] @ opt_field ''password'' JStr (password wi))"

definition settings_json :: "settings \<Rightarrow> json" where
  "settings_json s =
     JObj (opt_field ''dnsServer'' dns_server_json (dnsServer s)
           @ opt_field ''alternativeDNS'' (\<lambda>alts. JArr (map JStr alts)) (alternativeDNS s)
           @ opt_field ''webInterface'' web_interface_json (webInterface s))"

text \<open>
  \<open>if (settings.webInterface && settings.webInterface.password) {
  delete settings.webInterface.password; }\<close>
\<close>

definition delete_password :: "settings \<Rightarrow> settings" where
  "delete_password s =
     (case webInterface s of
        None \<Rightarrow> s
      | Some wi \<Rightarrow>
          if \<not> falsy (password wi) then s\<lparr>webInterface := Some (wi\<lparr>password := None\<rparr>)\<rparr>
          else s)"

definition api_get_settings :: "world \<Rightarrow> response \<times> world" where
  "api_get_settings =
     respond
       (bind_io getConfig (\<lambda>s.
          return_io \<lparr>status = 200, body = settings_json (delete_password s)\<rparr>))
       ''Error in GET /api/settings: '' ''Failed to get settings''"

definition api_post_settings :: "settings \<Rightarrow> world \<Rightarrow> response \<times> world" where
  "api_post_settings s w =
     (if dnsServer s = None \<or> alternativeDNS s = None \<or> webInterface s = None
      then (bad_request ''Invalid settings format'', w)
      else respond
             (then_io (saveConfig s)
               (then_io updateDNSConfig
                 (return_io (success ''Settings updated successfully''))))
             ''Error in POST /api/settings: '' ''Failed to update settings'' w)"

subsection \<open>The status endpoint\<close>

text \<open>
  \<open>String.prototype.split\<close> at the line feed, and \<open>String.prototype.includes\<close>;
  \<open>random48_hours\<close> is \<open>Math.floor(Math.random() * 48) + 1\<close>.
\<close>

fun split_nl :: "string \<Rightarrow> string list" where
  "split_nl [] = [Nil]"
| "split_nl (c # cs) =
     (if c = nl then [] # split_nl cs
      else (case split_nl cs of [] \<Rightarrow> [c # Nil] | l # ls \<Rightarrow> (c # l) # ls))"


definition random48_hours :: "int io" where
  "random48_hours w = (Inr (int (random48 w) + 1), w)"

definition stat_config :: "string io" where
  "stat_config w =
     (if config_json w = Missing then (Inl (ENOENT CONFIG_PATH), w)
      else (Inr (config_mtime w), w))"







section \<open>Stable properties of the world\<close>

text \<open>
  A property of the world is stable under a state transformer when it holds after a run
  whenever it held before. A property is quiet when it does not depend on the console, on
  the text files or on the bypass report.
\<close>

definition stable :: "(world \<Rightarrow> bool) \<Rightarrow> 'a io \<Rightarrow> bool" where
  "stable P m \<longleftrightarrow> (\<forall>w. P w \<longrightarrow> P (snd (m w)))"

definition quiet :: "(world \<Rightarrow> bool) \<Rightarrow> bool" where
  "quiet P \<longleftrightarrow> (\<forall>w c t r. P (w\<lparr>console := c\<rparr>) = P w \<and> P (w\<lparr>texts := t\<rparr>) = P w
                     \<and> P (w\<lparr>report_json := r\<rparr>) = P w)"

section \<open>Reference notions\<close>



text \<open>
  The matching policy in the words of the specification: the exact domain first, then
  progressively shorter parent-domain suffixes; the first candidate with an entry wins,
  and \<open>None\<close> stands for the default pool.
\<close>

function parent_suffixes :: "string \<Rightarrow> string list" where
  "parent_suffixes d =
     (if CHR ''.'' \<in> set d
      then d # parent_suffixes (tl (dropWhile (\<lambda>c. c \<noteq> CHR ''.'') d))
      else [d])"
  by pat_completeness auto
termination
proof (relation "measure length")
  show "wf (measure length)" by simp
next
  fix d :: string
  assume "CHR ''.'' \<in> set d"
  then have "dropWhile (\<lambda>c. c \<noteq> CHR ''.'') d \<noteq> []"
    by (simp add: dropWhile_eq_Nil_conv)
  then have "length (tl (dropWhile (\<lambda>c. c \<noteq> CHR ''.'') d))
               < length (dropWhile (\<lambda>c. c \<noteq> CHR ''.'') d)"
    by (cases "dropWhile (\<lambda>c. c \<noteq> CHR ''.'') d") simp_all
  also have "\<dots> \<le> length d" by (rule length_dropWhile_le)
  finally show "(tl (dropWhile (\<lambda>c. c \<noteq> CHR ''.'') d), d) \<in> measure length" by simp
qed

declare parent_suffixes.simps [simp del]

definition spec_resolveTarget :: "domain_entry list \<Rightarrow> string \<Rightarrow> string option" where
  "spec_resolveTarget tbl d =
     (case List.find (\<lambda>s. s \<in> set (map domain tbl)) (parent_suffixes d) of
        None \<Rightarrow> None
      | Some s \<Rightarrow> map_option resolveVia (List.find (\<lambda>e. domain e = s) tbl))"

text \<open>The port range in the words of the specification.\<close>

definition spec_valid_port :: "int \<Rightarrow> bool" where
  "spec_valid_port p \<longleftrightarrow> 1 \<le> p \<and> p \<le> 65535"

text \<open>
  The forwarder reads its configuration line by line and skips empty lines and comment
  lines, which start with \<open>#\<close>. The directive lines of a text are the other lines, in
  order; two configurations with the same directive lines configure the forwarder alike.
\<close>

definition directive_lines :: "string \<Rightarrow> string list" where
  "directive_lines c = filter (\<lambda>l. l \<noteq> [] \<and> hd l \<noteq> CHR ''#'') (split_nl c)"

section \<open>Concrete worlds\<close>

text \<open>
  A world with the default documents, no generated file, empty logs and no denied path;
  one whose \<open>config.json\<close> does not parse, with a forwarder configuration from an earlier
  run; one whose DNS log cannot be written; one with a later clock.
\<close>

definition world0 :: world where
  "world0 =
     \<lparr>config_json = Holds defaultConfig, ips_json = Holds defaultIpList, report_json = None,
      texts = (\<lambda>p. None), console = [], denied = (\<lambda>p. False),
      iso_time = (\<lambda>d. ''2024-01-01T00:00:00.000Z''),
      locale_time = (\<lambda>d. ''1/1/2024, 12:00:00 AM''),
      random48 = 0, config_mtime = ''1/1/2024, 12:00:00 AM''\<rparr>"

definition world_malformed :: world where
  "world_malformed =
     world0\<lparr>config_json := Malformed,
            texts := (\<lambda>p. if p = CUSTOM_CONFIG_FILE then Some ''port=53'' else None)\<rparr>"

definition world_readonly_log :: world where
  "world_readonly_log = world0\<lparr>denied := (\<lambda>p. p = dnsLogPath)\<rparr>"


text \<open>
  Settings whose ports are outside the port range and whose resolver is no address, and
  the default settings with an empty password.
\<close>

definition unchecked_settings :: settings where
  "unchecked_settings =
     \<lparr>dnsServer = Some \<lparr>port = 99999, cacheSize = - 5, logQueries = True\<rparr>,
      alternativeDNS = Some [''not an address''],
      webInterface = Some \<lparr>web_port = 0, enableAuth = False, username = ''admin'',
                            password = None\<rparr>\<rparr>"

definition empty_password_config :: settings where
  "empty_password_config =
     \<lparr>dnsServer = Some \<lparr>port = 53, cacheSize = 1000, logQueries = True\<rparr>,
      alternativeDNS = Some [''8.8.8.8'', ''1.1.1.1''],
      webInterface = Some \<lparr>web_port = 5000, enableAuth = False, username = ''admin'',
                            password = Some []\<rparr>\<rparr>"

text \<open>
  A world whose domain list holds the one override for \<open>netflix.com\<close>, and a world
  whose query log holds two query lines and one line of another kind.
\<close>

definition world_netflix_only :: world where
  "world_netflix_only =
     world0\<lparr>ips_json := Holds \<lparr>domains = [\<lparr>domain = ''netflix.com'', resolveVia = ''1.1.1.1''\<rparr>]\<rparr>\<rparr>"


section \<open>Properties\<close>

subsection \<open>What the logger and the readers of the documents leave alone\<close>

lemmas io_defs = return_io_def throw_io_def bind_io_def then_io_def catch_io_def

lemma logger_info_eq:
  "logger_info msg w =
     (Inr (),
      if denied w accessLogPath
      then w\<lparr>console := console w @ [trim (formatLogMessage (''INFO: '' @ msg) w),
                 ''Failed to write to access log: '' @ message (EACCES accessLogPath)]\<rparr>
      else w\<lparr>console := console w @ [trim (formatLogMessage (''INFO: '' @ msg) w)],
             texts := (texts w)(accessLogPath \<mapsto>
                (case texts w accessLogPath of
                   None \<Rightarrow> formatLogMessage (''INFO: '' @ msg) w
                 | Some old \<Rightarrow> old @ formatLogMessage (''INFO: '' @ msg) w))\<rparr>)"
  by (cases "texts w accessLogPath")
     (simp_all add: logger_info_def io_defs console_log_def appendFile_def Let_def)

lemma logger_error_eq:
  "logger_error msg w =
     (Inr (),
      if denied w errorLogPath
      then w\<lparr>console := console w @ [trim (formatLogMessage (''ERROR: '' @ msg) w),
                 ''Failed to write to error log: '' @ message (EACCES errorLogPath)]\<rparr>
      else w\<lparr>console := console w @ [trim (formatLogMessage (''ERROR: '' @ msg) w)],
             texts := (texts w)(errorLogPath \<mapsto>
                (case texts w errorLogPath of
                   None \<Rightarrow> formatLogMessage (''ERROR: '' @ msg) w
                 | Some old \<Rightarrow> old @ formatLogMessage (''ERROR: '' @ msg) w))\<rparr>)"
  by (cases "texts w errorLogPath")
     (simp_all add: logger_error_def io_defs console_log_def appendFile_def Let_def)

lemma logger_info_frame:
  "fst (logger_info msg w) = Inr ()"
  "config_json (snd (logger_info msg w)) = config_json w"
  "ips_json (snd (logger_info msg w)) = ips_json w"
  "denied (snd (logger_info msg w)) = denied w"
  "iso_time (snd (logger_info msg w)) = iso_time w"
  "p \<noteq> accessLogPath \<Longrightarrow> texts (snd (logger_info msg w)) p = texts w p"
  by (simp_all add: logger_info_eq)

lemma logger_error_frame:
  "fst (logger_error msg w) = Inr ()"
  "config_json (snd (logger_error msg w)) = config_json w"
  "ips_json (snd (logger_error msg w)) = ips_json w"
  "denied (snd (logger_error msg w)) = denied w"
  "iso_time (snd (logger_error msg w)) = iso_time w"
  "p \<noteq> errorLogPath \<Longrightarrow> texts (snd (logger_error msg w)) p = texts w p"
  by (simp_all add: logger_error_eq)

lemma ensureConfigExists_frame:
  "denied (snd (ensureConfigExists w)) = denied w"
  "iso_time (snd (ensureConfigExists w)) = iso_time w"
  "p \<noteq> accessLogPath \<Longrightarrow> texts (snd (ensureConfigExists w)) p = texts w p"
  by (simp_all add: ensureConfigExists_def io_defs access_config_def access_ips_def
        writeFile_config_def writeFile_ips_def logger_info_eq split: prod.splits sum.splits)

lemma ensureConfigExists_present:
  assumes "config_json w \<noteq> Missing" "ips_json w \<noteq> Missing"
  shows "ensureConfigExists w = (Inr (), w)"
  using assms by (simp add: ensureConfigExists_def io_defs access_config_def access_ips_def)

lemma getConfig_frame:
  "denied (snd (getConfig w)) = denied w"
  "iso_time (snd (getConfig w)) = iso_time w"
  "p \<noteq> accessLogPath \<Longrightarrow> texts (snd (getConfig w)) p = texts w p"
  using ensureConfigExists_frame[where w=w]
  by (auto simp add: getConfig_def io_defs readFile_config_def split: prod.splits sum.splits)

lemma getDomainList_frame:
  "denied (snd (getDomainList w)) = denied w"
  "iso_time (snd (getDomainList w)) = iso_time w"
  "p \<noteq> accessLogPath \<Longrightarrow> texts (snd (getDomainList w)) p = texts w p"
  using ensureConfigExists_frame[where w=w]
  by (auto simp add: getDomainList_def io_defs readFile_ips_def split: prod.splits sum.splits)

lemma formatLogMessage_cong:
  "iso_time w' = iso_time w \<Longrightarrow> formatLogMessage m w' = formatLogMessage m w"
  by (simp add: formatLogMessage_def)

lemma updateDNSConfig_getConfig_fails:
  assumes "fst (getConfig w) = Inl e"
  shows "updateDNSConfig w =
           (Inl e, snd (logger_error (''Failed to update DNS configuration: '' @ message e)
                          (snd (getConfig w))))"
  using assms
  by (cases "getConfig w")
     (simp add: updateDNSConfig_def io_defs logger_error_eq del: append.simps list.simps)

lemma updateDNSConfig_getDomainList_fails:
  assumes "fst (getConfig w) = Inr cfg" "fst (getDomainList (snd (getConfig w))) = Inl e"
  shows "updateDNSConfig w =
           (Inl e, snd (logger_error (''Failed to update DNS configuration: '' @ message e)
                          (snd (getDomainList (snd (getConfig w))))))"
  using assms
  by (cases "getConfig w"; cases "getDomainList (snd (getConfig w))")
     (simp add: updateDNSConfig_def io_defs logger_error_eq del: append.simps list.simps)

lemma logged_error:
  assumes "iso_time w1 = iso_time w" "denied w1 = denied w"
  shows "trim (formatLogMessage (''ERROR: '' @ m) w) \<in> set (console (snd (logger_error m w1)))"
    and "\<not> denied w errorLogPath \<Longrightarrow>
           \<exists>old. texts (snd (logger_error m w1)) errorLogPath
                    = Some (old @ formatLogMessage (''ERROR: '' @ m) w)"
  using assms formatLogMessage_cong[OF assms(1)]
  by (auto simp add: logger_error_eq split: option.splits)

subsection \<open>Reload errors\<close>

text \<open>
  Claim C4. When reading the settings or reading the domain list fails inside
  \<open>updateDNSConfig\<close>, the call throws that same error, the generated forwarder
  configuration file is what it was before the call, and the error has been logged: its
  line is on the console and, when the error log can be written, at the end of the error
  log.
\<close>

theorem C4_updateDNSConfig_read_failure:
  assumes "fst (getConfig w) = Inl e \<or>
           (\<exists>cfg. fst (getConfig w) = Inr cfg \<and> fst (getDomainList (snd (getConfig w))) = Inl e)"
  shows "fst (updateDNSConfig w) = Inl e \<and>
         texts (snd (updateDNSConfig w)) CUSTOM_CONFIG_FILE = texts w CUSTOM_CONFIG_FILE \<and>
         trim (formatLogMessage (''ERROR: '' @ ''Failed to update DNS configuration: '' @ message e) w)
           \<in> set (console (snd (updateDNSConfig w))) \<and>
         (\<not> denied w errorLogPath \<longrightarrow>
            (\<exists>old. texts (snd (updateDNSConfig w)) errorLogPath =
               Some (old @ formatLogMessage (''ERROR: '' @ ''Failed to update DNS configuration: ''
                                               @ message e) w)))"
  using assms
proof
  assume a: "fst (getConfig w) = Inl e"
  let ?w1 = "snd (getConfig w)"
  have f: "iso_time ?w1 = iso_time w" "denied ?w1 = denied w"
    "texts ?w1 CUSTOM_CONFIG_FILE = texts w CUSTOM_CONFIG_FILE"
    by (simp_all add: getConfig_frame)
  show ?thesis
    unfolding updateDNSConfig_getConfig_fails[OF a]
    using logged_error[OF f(1,2)] f(3)
    by (simp add: logger_error_frame del: append.simps list.simps)
next
  assume "\<exists>cfg. fst (getConfig w) = Inr cfg \<and> fst (getDomainList (snd (getConfig w))) = Inl e"
  then obtain cfg where a: "fst (getConfig w) = Inr cfg"
      "fst (getDomainList (snd (getConfig w))) = Inl e" by blast
  let ?w1 = "snd (getDomainList (snd (getConfig w)))"
  have f: "iso_time ?w1 = iso_time w" "denied ?w1 = denied w"
    "texts ?w1 CUSTOM_CONFIG_FILE = texts w CUSTOM_CONFIG_FILE"
    by (simp_all add: getConfig_frame getDomainList_frame)
  show ?thesis
    unfolding updateDNSConfig_getDomainList_fails[OF a]
    using logged_error[OF f(1,2)] f(3)
    by (simp add: logger_error_frame del: append.simps list.simps)
qed

theorem C4_updateDNSConfig_read_failure_witness:
  "fst (getConfig world_malformed) = Inl (SyntaxError CONFIG_PATH) \<and>
   fst (updateDNSConfig world_malformed) = Inl (SyntaxError CONFIG_PATH) \<and>
   texts (snd (updateDNSConfig world_malformed)) CUSTOM_CONFIG_FILE = Some ''port=53'' \<and>
   (\<exists>old. texts (snd (updateDNSConfig world_malformed)) errorLogPath =
      Some (old @ ''[2024-01-01T00:00:00.000Z] ERROR: Failed to update DNS configuration: Unexpected token in JSON'' @ [nl]))"
proof -
  have h: "fst (getConfig world_malformed) = Inl (SyntaxError CONFIG_PATH)"
    by (simp add: world_malformed_def world0_def getConfig_def ensureConfigExists_def io_defs
          access_config_def access_ips_def readFile_config_def)
  have t: "texts world_malformed CUSTOM_CONFIG_FILE = Some ''port=53''"
       "\<not> denied world_malformed errorLogPath"
       "iso_time world_malformed 0 = ''2024-01-01T00:00:00.000Z''"
    by (simp_all add: world_malformed_def world0_def)
  from C4_updateDNSConfig_read_failure[of world_malformed, OF disjI1[OF h]] h t show ?thesis
    by (simp add: formatLogMessage_def)
qed

subsection \<open>Telemetry\<close>

text \<open>
  Claim C5. \<open>dnsQuery\<close> of the logger never throws. When the append to the DNS log fails,
  it returns normally and the world is the one it started from, but for one more line on
  the console that reports the failure.
\<close>

theorem C5_dnsQuery_swallows_failure:
  "fst (logger_dnsQuery q r w) = Inr () \<and>
   (fst (appendFile dnsLogPath (formatLogMessage (''DNS QUERY: '' @ q @ '' -> '' @ r) w) w) = Inl e
      \<longrightarrow> logger_dnsQuery q r w =
            (Inr (), w\<lparr>console := console w @ [''Failed to write to DNS log: '' @ message e]\<rparr>))"
  by (auto simp add: logger_dnsQuery_def io_defs appendFile_def console_log_def Let_def
        simp del: append.simps list.simps)

theorem C5_dnsQuery_swallows_failure_witness:
  "fst (appendFile dnsLogPath
          (formatLogMessage (''DNS QUERY: '' @ ''netflix.com'' @ '' -> '' @ ''1.1.1.1'')
             world_readonly_log) world_readonly_log) = Inl (EACCES dnsLogPath) \<and>
   logger_dnsQuery ''netflix.com'' ''1.1.1.1'' world_readonly_log =
     (Inr (), world_readonly_log\<lparr>console :=
        [''Failed to write to DNS log: EACCES: permission denied, open logs/dns.log'']\<rparr>)"
proof -
  have h: "fst (appendFile dnsLogPath
          (formatLogMessage (''DNS QUERY: '' @ ''netflix.com'' @ '' -> '' @ ''1.1.1.1'')
             world_readonly_log) world_readonly_log) = Inl (EACCES dnsLogPath)"
    by (simp add: appendFile_def world_readonly_log_def)
  have c: "console world_readonly_log = []"
    by (simp add: world_readonly_log_def world0_def)
  from C5_dnsQuery_swallows_failure[of "''netflix.com''" "''1.1.1.1''" world_readonly_log "EACCES dnsLogPath"] h c
  show ?thesis by simp
qed

subsection \<open>The override table\<close>

lemma findIndex_Some:
  "findIndex P xs = Some i \<Longrightarrow> i < length xs \<and> P (xs ! i) \<and> (\<forall>j<i. \<not> P (xs ! j))"
proof (induction xs arbitrary: i)
  case Nil
  then show ?case by simp
next
  case (Cons x xs)
  show ?case
  proof (cases "P x")
    case True
    with Cons.prems show ?thesis by simp
  next
    case False
    with Cons.prems obtain k where k: "findIndex P xs = Some k" "i = Suc k"
      by auto
    from Cons.IH[OF k(1)] False k(2) show ?thesis
      by (auto simp add: less_Suc_eq_0_disj)
  qed
qed

lemma findIndex_None: "findIndex P xs = None \<longleftrightarrow> (\<forall>x\<in>set xs. \<not> P x)"
  by (induction xs) auto

lemma map_domain_update:
  "map domain (xs[i := (xs ! i)\<lparr>resolveVia := via\<rparr>]) = map domain xs"
  by (simp add: map_update list_update_same_conv) (metis list_update_id map_update)

lemma getDomainList_Holds:
  assumes "ips_json w = Holds dl" "\<not> denied w CONFIG_PATH"
  shows "fst (getDomainList w) = Inr dl"
    and "ips_json (snd (getDomainList w)) = Holds dl"
  using assms
  by (auto simp add: getDomainList_def ensureConfigExists_def io_defs access_config_def
        access_ips_def writeFile_config_def readFile_ips_def logger_info_eq
        split: prod.splits sum.splits if_splits)

lemma saveDomainList_ok:
  assumes "\<not> denied w IPS_PATH"
  shows "fst (saveDomainList ds w) = Inr True"
    and "ips_json (snd (saveDomainList ds w)) = Holds \<lparr>domains = ds\<rparr>"
    and "denied (snd (saveDomainList ds w)) = denied w"
  using assms
  by (auto simp add: saveDomainList_def io_defs writeFile_ips_def logger_info_eq)

lemma config_removeDomain_ok:
  assumes "ips_json w = Holds dl" "\<not> denied w IPS_PATH" "\<not> denied w CONFIG_PATH"
  shows "fst (config_removeDomain d w) = Inr \<lparr>domains = filter (\<lambda>e. domain e \<noteq> d) (domains dl)\<rparr>"
    and "ips_json (snd (config_removeDomain d w))
           = Holds \<lparr>domains = filter (\<lambda>e. domain e \<noteq> d) (domains dl)\<rparr>"
    and "denied (snd (config_removeDomain d w)) = denied w"
proof -
  obtain w1 where g: "getDomainList w = (Inr dl, w1)"
    using getDomainList_Holds(1)[OF assms(1,3)] by (cases "getDomainList w") auto
  have d1: "denied w1 = denied w"
    using getDomainList_frame(1)[of w] g by simp
  then have nd: "\<not> denied w1 IPS_PATH" using assms(2) by simp
  let ?ds = "filter (\<lambda>e. domain e \<noteq> d) (domains dl)"
  have r: "config_removeDomain d w =
             (Inr (dl\<lparr>domains := ?ds\<rparr>), snd (saveDomainList ?ds w1))"
    using saveDomainList_ok(1)[OF nd, of ?ds]
    by (cases "saveDomainList ?ds w1") (simp add: config_removeDomain_def io_defs g Let_def)
  show "fst (config_removeDomain d w) = Inr \<lparr>domains = ?ds\<rparr>"
    by (simp add: r)
  show "ips_json (snd (config_removeDomain d w)) = Holds \<lparr>domains = ?ds\<rparr>"
    by (simp add: r saveDomainList_ok(2)[OF nd])
  show "denied (snd (config_removeDomain d w)) = denied w"
    by (simp add: r saveDomainList_ok(3)[OF nd] d1)
qed

text \<open>
  Claim C9. When the domain list can be read and written, \<open>removeDomain d\<close> returns and
  stores the list without the entries of domain \<open>d\<close>: no entry of domain \<open>d\<close> remains, the
  other entries are kept as they were and in their order. A second \<open>removeDomain d\<close>
  returns and stores the same list again. When no entry had domain \<open>d\<close> the list is the
  one it was, and the call returns without an error.
\<close>

theorem C9_removeDomain_idempotent:
  assumes "ips_json w = Holds dl" "\<not> denied w IPS_PATH" "\<not> denied w CONFIG_PATH"
  shows "\<exists>ds1. fst (config_removeDomain d w) = Inr \<lparr>domains = ds1\<rparr> \<and>
           ips_json (snd (config_removeDomain d w)) = Holds \<lparr>domains = ds1\<rparr> \<and>
           d \<notin> domain ` set ds1 \<and>
           ds1 = filter (\<lambda>e. domain e \<noteq> d) (domains dl) \<and>
           fst (config_removeDomain d (snd (config_removeDomain d w))) = Inr \<lparr>domains = ds1\<rparr> \<and>
           ips_json (snd (config_removeDomain d (snd (config_removeDomain d w))))
             = Holds \<lparr>domains = ds1\<rparr> \<and>
           (d \<notin> domain ` set (domains dl) \<longrightarrow> ds1 = domains dl)"
proof -
  let ?ds = "filter (\<lambda>e. domain e \<noteq> d) (domains dl)"
  let ?w1 = "snd (config_removeDomain d w)"
  note first = config_removeDomain_ok[OF assms, of d]
  have nd: "\<not> denied ?w1 IPS_PATH" "\<not> denied ?w1 CONFIG_PATH"
    using first(3) assms by simp_all
  note second = config_removeDomain_ok[OF first(2) nd, of d]
  have absent: "d \<notin> domain ` set (domains dl) \<longrightarrow> ?ds = domains dl"
    by (auto intro: filter_True)
  show ?thesis
    using first(1,2) second(1,2) absent by auto
qed

theorem C9_removeDomain_idempotent_witness:
  "ips_json world0 = Holds defaultIpList \<and> \<not> denied world0 IPS_PATH \<and>
   \<not> denied world0 CONFIG_PATH \<and>
   fst (config_removeDomain ''netflix.com'' world0)
     = Inr \<lparr>domains = [\<lparr>domain = ''spotify.com'', resolveVia = ''8.8.8.8''\<rparr>]\<rparr> \<and>
   fst (config_removeDomain ''netflix.com'' (snd (config_removeDomain ''netflix.com'' world0)))
     = Inr \<lparr>domains = [\<lparr>domain = ''spotify.com'', resolveVia = ''8.8.8.8''\<rparr>]\<rparr>"
proof -
  have h: "ips_json world0 = Holds defaultIpList" "\<not> denied world0 IPS_PATH"
    "\<not> denied world0 CONFIG_PATH"
    by (simp_all add: world0_def)
  from C9_removeDomain_idempotent[OF h, of "''netflix.com''"] h show ?thesis
    by (auto simp add: defaultIpList_def)
qed

lemma config_addDomain_ok:
  assumes "ips_json w = Holds dl" "\<not> denied w IPS_PATH" "\<not> denied w CONFIG_PATH"
  shows "fst (config_addDomain d via w) = Inr \<lparr>domains =
           (case findIndex (\<lambda>e. domain e = d) (domains dl) of
              Some i \<Rightarrow> (domains dl)[i := (domains dl ! i)\<lparr>resolveVia := via\<rparr>]
            | None \<Rightarrow> domains dl @ [\<lparr>domain = d, resolveVia = via\<rparr>])\<rparr>"
    and "ips_json (snd (config_addDomain d via w)) = Holds \<lparr>domains =
           (case findIndex (\<lambda>e. domain e = d) (domains dl) of
              Some i \<Rightarrow> (domains dl)[i := (domains dl ! i)\<lparr>resolveVia := via\<rparr>]
            | None \<Rightarrow> domains dl @ [\<lparr>domain = d, resolveVia = via\<rparr>])\<rparr>"
proof -
  obtain w1 where g: "getDomainList w = (Inr dl, w1)"
    using getDomainList_Holds(1)[OF assms(1,3)] by (cases "getDomainList w") auto
  have d1: "denied w1 = denied w"
    using getDomainList_frame(1)[of w] g by simp
  then have nd: "\<not> denied w1 IPS_PATH" using assms(2) by simp
  let ?ds = "(case findIndex (\<lambda>e. domain e = d) (domains dl) of
              Some i \<Rightarrow> (domains dl)[i := (domains dl ! i)\<lparr>resolveVia := via\<rparr>]
            | None \<Rightarrow> domains dl @ [\<lparr>domain = d, resolveVia = via\<rparr>])"
  have r: "config_addDomain d via w = (Inr \<lparr>domains = ?ds\<rparr>, snd (saveDomainList ?ds w1))"
    using saveDomainList_ok(1)[OF nd, of ?ds]
    by (cases "saveDomainList ?ds w1"; cases "findIndex (\<lambda>e. domain e = d) (domains dl)")
       (simp_all add: config_addDomain_def io_defs g Let_def)
  show "fst (config_addDomain d via w) = Inr \<lparr>domains = ?ds\<rparr>"
    by (simp add: r)
  show "ips_json (snd (config_addDomain d via w)) = Holds \<lparr>domains = ?ds\<rparr>"
    by (simp add: r saveDomainList_ok(2)[OF nd])
qed

lemma added_entries:
  fixes ds :: "domain_entry list" and d via :: string
  assumes "distinct (map domain ds)"
  defines "ds' \<equiv> (case findIndex (\<lambda>e. domain e = d) ds of
              Some i \<Rightarrow> ds[i := (ds ! i)\<lparr>resolveVia := via\<rparr>]
            | None \<Rightarrow> ds @ [\<lparr>domain = d, resolveVia = via\<rparr>])"
  shows "distinct (map domain ds') \<and>
         \<lparr>domain = d, resolveVia = via\<rparr> \<in> set ds' \<and>
         (d \<in> set (map domain ds) \<longrightarrow> map domain ds' = map domain ds) \<and>
         (d \<notin> set (map domain ds) \<longrightarrow> ds' = ds @ [\<lparr>domain = d, resolveVia = via\<rparr>]) \<and>
         (\<forall>e\<in>set ds. domain e \<noteq> d \<longrightarrow> e \<in> set ds')"
proof (cases "findIndex (\<lambda>e. domain e = d) ds")
  case None
  then have fresh: "d \<notin> set (map domain ds)"
    by (auto simp add: findIndex_None)
  have eq: "ds' = ds @ [\<lparr>domain = d, resolveVia = via\<rparr>]"
    by (simp add: ds'_def None)
  show ?thesis using assms(1) fresh by (simp add: eq)
next
  case (Some i)
  from findIndex_Some[OF Some] have i: "i < length ds" "domain (ds ! i) = d" by auto
  have eq: "ds' = ds[i := (ds ! i)\<lparr>resolveVia := via\<rparr>]"
    by (simp add: ds'_def Some)
  have m: "map domain ds' = map domain ds"
    by (simp add: eq map_domain_update)
  have present: "d \<in> set (map domain ds)"
    using i by (metis length_map nth_map nth_mem)
  have dist: "distinct (map domain ds')" using assms(1) by (simp add: m)
  have "ds' ! i = \<lparr>domain = d, resolveVia = via\<rparr>"
    using i by (simp add: eq)
  moreover have "i < length ds'" using i by (simp add: eq)
  ultimately have new: "\<lparr>domain = d, resolveVia = via\<rparr> \<in> set ds'"
    by (metis nth_mem)
  have others: "\<forall>e\<in>set ds. domain e \<noteq> d \<longrightarrow> e \<in> set ds'"
  proof (intro ballI impI)
    fix e assume e: "e \<in> set ds" "domain e \<noteq> d"
    then obtain j where j: "j < length ds" "ds ! j = e" by (auto simp add: in_set_conv_nth)
    with e i have "j \<noteq> i" by auto
    with j have "ds' ! j = e" by (simp add: eq)
    moreover have "j < length ds'" using j by (simp add: eq)
    ultimately show "e \<in> set ds'" by (metis nth_mem)
  qed
  show ?thesis using dist new m present others by simp
qed

text \<open>
  Claim C3. When the stored domains are pairwise distinct, \<open>addDomain d via\<close> returns and
  stores a list whose domains are pairwise distinct again and which holds the entry
  \<open>{d, via}\<close>. When \<open>d\<close> was present, the domains of the list and their order are what they
  were, so that the resolver of \<open>d\<close> has been replaced in place; when \<open>d\<close> was absent, the
  entry has been appended. Entries of other domains are kept.
\<close>

theorem C3_addDomain_unique_last_write_wins:
  assumes "ips_json w = Holds dl" "distinct (map domain (domains dl))"
    "\<not> denied w IPS_PATH" "\<not> denied w CONFIG_PATH"
  shows "\<exists>ds'. fst (config_addDomain d via w) = Inr \<lparr>domains = ds'\<rparr> \<and>
           ips_json (snd (config_addDomain d via w)) = Holds \<lparr>domains = ds'\<rparr> \<and>
           distinct (map domain ds') \<and>
           \<lparr>domain = d, resolveVia = via\<rparr> \<in> set ds' \<and>
           (d \<in> set (map domain (domains dl)) \<longrightarrow> map domain ds' = map domain (domains dl)) \<and>
           (d \<notin> set (map domain (domains dl)) \<longrightarrow>
              ds' = domains dl @ [\<lparr>domain = d, resolveVia = via\<rparr>]) \<and>
           (\<forall>e\<in>set (domains dl). domain e \<noteq> d \<longrightarrow> e \<in> set ds')"
  using config_addDomain_ok[OF assms(1,3,4), of d via] added_entries[OF assms(2), of d via]
  by blast

theorem C3_addDomain_unique_last_write_wins_witness:
  "ips_json world0 = Holds defaultIpList \<and> distinct (map domain (domains defaultIpList)) \<and>
   \<not> denied world0 IPS_PATH \<and> \<not> denied world0 CONFIG_PATH \<and>
   (\<exists>ds'. fst (config_addDomain ''netflix.com'' ''9.9.9.9'' world0) = Inr \<lparr>domains = ds'\<rparr> \<and>
      ips_json (snd (config_addDomain ''netflix.com'' ''9.9.9.9'' world0)) = Holds \<lparr>domains = ds'\<rparr> \<and>
      distinct (map domain ds') \<and>
      \<lparr>domain = ''netflix.com'', resolveVia = ''9.9.9.9''\<rparr> \<in> set ds' \<and>
      map domain ds' = [''netflix.com'', ''spotify.com''])"
proof -
  have h: "ips_json world0 = Holds defaultIpList" "distinct (map domain (domains defaultIpList))"
    "\<not> denied world0 IPS_PATH" "\<not> denied world0 CONFIG_PATH"
    by (simp_all add: world0_def defaultIpList_def)
  from C3_addDomain_unique_last_write_wins[OF h, of "''netflix.com''" "''9.9.9.9''"] h show ?thesis
    by (auto simp add: defaultIpList_def)
qed

text \<open>
  The domains of the default list are pairwise distinct, and \<open>removeDomain\<close> keeps them
  so: with C3, the domains of every list that the two operations reach from the default
  list are pairwise distinct.
\<close>

lemma defaultIpList_distinct: "distinct (map domain (domains defaultIpList))"
  by (simp add: defaultIpList_def)

lemma removeDomain_keeps_distinct:
  "distinct (map domain ds) \<Longrightarrow> distinct (map domain (filter (\<lambda>e. domain e \<noteq> d) ds))"
  by (rule distinct_map_filter)

subsection \<open>The generated forwarder configuration\<close>

lemma foldl_append_concat:
  "foldl (\<lambda>acc x. acc @ f x) a xs = a @ concat (map f xs)"
  by (induction xs arbitrary: a) simp_all

lemma configContent_eq:
  assumes "dnsServer cfg = Some ds" "alternativeDNS cfg = Some alts"
  shows "configContent ts cfg dl =
    Inr (''# Smart DNS Proxy Configuration'' @ [nl] @ ''# Generated at '' @ ts @ [nl, nl]
         @ (''# Basic configuration'' @ [nl]
            @ ''port='' @ string_of_int (port ds) @ [nl]
            @ ''cache-size='' @ string_of_int (cacheSize ds) @ [nl]
            @ ''log-queries='' @ (if logQueries ds then ''true'' else ''false'') @ [nl, nl]
            @ ''# Alternative DNS servers'' @ [nl]
            @ concat (map (\<lambda>dns. ''server='' @ dns @ [nl]) alts)
            @ [nl] @ ''# Domain specific configurations'' @ [nl]
            @ (if domains dl \<noteq> []
               then concat (map (\<lambda>item. ''server=/'' @ domain item @ ''/'' @ resolveVia item @ [nl])
                              (domains dl))
               else ''# No domains configured yet'' @ [nl])))"
  using assms
  by (simp add: configContent_def Let_def foldl_append_concat)

lemma generateDnsmasqConfig_ok:
  assumes "configContent (iso_time w 0) cfg dl = Inr c" "\<not> denied w CUSTOM_CONFIG_FILE"
  shows "fst (generateDnsmasqConfig cfg dl w) = Inr ()"
    and "texts (snd (generateDnsmasqConfig cfg dl w)) CUSTOM_CONFIG_FILE = Some c"
  using assms
  by (simp_all add: generateDnsmasqConfig_def io_defs logger_info_eq writeFile_def
        toISOString_def)

lemma line_in_block:
  assumes "e \<in> set es"
  shows "\<exists>A B. nl # concat (map (\<lambda>x. g x @ [nl]) es) = A @ nl # g e @ nl # B"
  using assms
proof (induction es)
  case Nil
  then show ?case by simp
next
  case (Cons x xs)
  show ?case
  proof (cases "e = x")
    case True
    have "nl # concat (map (\<lambda>x. g x @ [nl]) (x # xs))
            = [] @ nl # g e @ nl # concat (map (\<lambda>x. g x @ [nl]) xs)"
      by (simp add: True)
    then show ?thesis by blast
  next
    case False
    with Cons.prems have "e \<in> set xs" by simp
    from Cons.IH[OF this] obtain A B
      where ab: "nl # concat (map (\<lambda>x. g x @ [nl]) xs) = A @ nl # g e @ nl # B" by blast
    have "nl # concat (map (\<lambda>x. g x @ [nl]) (x # xs))
            = (nl # g x) @ (nl # concat (map (\<lambda>x. g x @ [nl]) xs))"
      by simp
    also have "\<dots> = ((nl # g x) @ A) @ nl # g e @ nl # B"
      by (simp only: ab append_assoc)
    finally show ?thesis by blast
  qed
qed

lemma configContent_sections:
  assumes "dnsServer cfg = Some ds" "alternativeDNS cfg = Some alts"
  shows "\<exists>pre. configContent ts cfg dl =
           Inr (pre @ (nl # ''# Alternative DNS servers'' @ [nl]
                        @ concat (map (\<lambda>dns. ''server='' @ dns @ [nl]) alts)
                        @ [nl] @ ''# Domain specific configurations'' @ [nl])
                @ (if domains dl \<noteq> []
                   then concat (map (\<lambda>item. (''server=/'' @ domain item @ ''/'' @ resolveVia item)
                                              @ [nl]) (domains dl))
                   else ''# No domains configured yet'' @ [nl]))"
  by (rule exI[of _ "''# Smart DNS Proxy Configuration'' @ [nl] @ ''# Generated at '' @ ts @ [nl, nl]
            @ ''# Basic configuration'' @ [nl]
            @ ''port='' @ string_of_int (port ds) @ [nl]
            @ ''cache-size='' @ string_of_int (cacheSize ds) @ [nl]
            @ ''log-queries='' @ (if logQueries ds then ''true'' else ''false'') @ [nl]"])
     (simp add: configContent_eq[OF assms])

text \<open>
  Claim C1. With both sections present in the settings and the file writable,
  \<open>generateDnsmasqConfig\<close> returns and the file it has written contains, for every entry
  of the domain list, the line \<open>server=/<domain>/<resolveVia>\<close> (from a line feed to the
  next one), and contains, between the heading of the default resolvers and the heading
  of the domain section, exactly one line \<open>server=<address>\<close> for each entry of
  \<open>alternativeDNS\<close>, in the order of that list.
\<close>

theorem C1_generated_config_routes:
  assumes "dnsServer appConfig = Some ds" "alternativeDNS appConfig = Some alts"
    "\<not> denied w CUSTOM_CONFIG_FILE"
  shows "\<exists>c. fst (generateDnsmasqConfig appConfig domainList w) = Inr () \<and>
           texts (snd (generateDnsmasqConfig appConfig domainList w)) CUSTOM_CONFIG_FILE = Some c \<and>
           (\<forall>e\<in>set (domains domainList).
              sublist (nl # ''server=/'' @ domain e @ ''/'' @ resolveVia e @ [nl]) c) \<and>
           sublist (nl # ''# Alternative DNS servers'' @ [nl]
                      @ concat (map (\<lambda>dns. ''server='' @ dns @ [nl]) alts)
                      @ [nl] @ ''# Domain specific configurations'' @ [nl]) c"
proof -
  define block where "block = nl # ''# Alternative DNS servers'' @ [nl]
                      @ concat (map (\<lambda>dns. ''server='' @ dns @ [nl]) alts)
                      @ [nl] @ ''# Domain specific configurations'' @ [nl]"
  define g :: "domain_entry \<Rightarrow> string"
    where "g = (\<lambda>item. ''server=/'' @ domain item @ ''/'' @ resolveVia item)"
  define rest where "rest = (if domains domainList \<noteq> []
                   then concat (map (\<lambda>item. g item @ [nl]) (domains domainList))
                   else ''# No domains configured yet'' @ [nl])"
  from configContent_sections[OF assms(1,2), of "iso_time w 0" domainList]
  obtain pre where c: "configContent (iso_time w 0) appConfig domainList = Inr (pre @ block @ rest)"
    unfolding block_def rest_def g_def by blast
  let ?c = "pre @ block @ rest"
  note gen = generateDnsmasqConfig_ok[OF c assms(3)]
  have alt: "sublist block ?c"
    by (rule sublist_appendI)
  have lines: "sublist (nl # g e @ [nl]) ?c" if e: "e \<in> set (domains domainList)" for e
  proof -
    from e have ne: "domains domainList \<noteq> []" by auto
    obtain b0 where b0: "block = b0 @ [nl]"
      by (simp add: block_def)
    from line_in_block[OF e, of g] obtain A B
      where ab: "nl # concat (map (\<lambda>x. g x @ [nl]) (domains domainList)) = A @ nl # g e @ nl # B"
      by blast
    have "?c = (pre @ b0) @ (nl # concat (map (\<lambda>x. g x @ [nl]) (domains domainList)))"
      by (simp add: b0 rest_def ne)
    also have "\<dots> = (pre @ b0 @ A) @ (nl # g e @ [nl]) @ B"
      by (simp only: ab) simp
    finally show ?thesis
      by (metis sublist_appendI)
  qed
  have "\<exists>c. fst (generateDnsmasqConfig appConfig domainList w) = Inr () \<and>
           texts (snd (generateDnsmasqConfig appConfig domainList w)) CUSTOM_CONFIG_FILE = Some c \<and>
           (\<forall>e\<in>set (domains domainList). sublist (nl # g e @ [nl]) c) \<and> sublist block c"
    using gen alt lines by blast
  then show ?thesis
    by (simp add: block_def g_def)
qed

theorem C1_generated_config_routes_witness:
  "dnsServer defaultConfig = Some \<lparr>port = 53, cacheSize = 1000, logQueries = True\<rparr> \<and>
   alternativeDNS defaultConfig = Some [''8.8.8.8'', ''1.1.1.1''] \<and>
   \<not> denied world0 CUSTOM_CONFIG_FILE \<and>
   (\<exists>c. fst (generateDnsmasqConfig defaultConfig defaultIpList world0) = Inr () \<and>
      texts (snd (generateDnsmasqConfig defaultConfig defaultIpList world0)) CUSTOM_CONFIG_FILE
        = Some c \<and>
      sublist (nl # ''server=/netflix.com/1.1.1.1'' @ [nl]) c \<and>
      sublist (nl # ''server=/spotify.com/8.8.8.8'' @ [nl]) c \<and>
      sublist (nl # ''# Alternative DNS servers'' @ [nl] @ ''server=8.8.8.8'' @ [nl]
                 @ ''server=1.1.1.1'' @ [nl] @ [nl] @ ''# Domain specific configurations'' @ [nl]) c)"
proof -
  have h: "dnsServer defaultConfig = Some \<lparr>port = 53, cacheSize = 1000, logQueries = True\<rparr>"
    "alternativeDNS defaultConfig = Some [''8.8.8.8'', ''1.1.1.1'']"
    "\<not> denied world0 CUSTOM_CONFIG_FILE"
    by (simp_all add: world0_def defaultConfig_def)
  from C1_generated_config_routes[OF h, of defaultIpList] h show ?thesis
    by (simp add: defaultIpList_def)
qed





lemma default_directives:
  "map_option directive_lines
     (texts (snd (generateDnsmasqConfig defaultConfig defaultIpList world0)) CUSTOM_CONFIG_FILE)
   = Some [''port=53'', ''cache-size=1000'', ''log-queries=true'', ''server=8.8.8.8'',
           ''server=1.1.1.1'', ''server=/netflix.com/1.1.1.1'', ''server=/spotify.com/8.8.8.8'']"
  by (simp add: generateDnsmasqConfig_def io_defs logger_info_eq writeFile_def world0_def
        toISOString_def configContent_def defaultConfig_def defaultIpList_def Let_def string_of_int_def
        string_of_nat.simps directive_lines_def)

subsection \<open>Stability and success of the composite operations\<close>

lemma stableD: "stable P m \<Longrightarrow> P w \<Longrightarrow> P (snd (m w))"
  by (simp add: stable_def)

lemma stable_return: "stable P (return_io x)"
  by (simp add: stable_def return_io_def)

lemma stable_throw: "stable P (throw_io e)"
  by (simp add: stable_def throw_io_def)

lemma stable_bind:
  assumes "stable P m" "\<And>x. stable P (f x)"
  shows "stable P (bind_io m f)"
  unfolding stable_def
proof (intro allI impI)
  fix w assume p: "P w"
  obtain r w1 where m: "m w = (r, w1)" by (cases "m w")
  from stableD[OF assms(1) p] m have p1: "P w1" by simp
  show "P (snd (bind_io m f w))"
  proof (cases r)
    case (Inl e)
    then show ?thesis using m p1 by (simp add: bind_io_def)
  next
    case (Inr x)
    then show ?thesis using m stableD[OF assms(2) p1, of x] by (simp add: bind_io_def)
  qed
qed

lemma stable_then:
  assumes "stable P m" "stable P n"
  shows "stable P (then_io m n)"
  unfolding then_io_def by (rule stable_bind) (simp_all add: assms)

lemma stable_catch:
  assumes "stable P m" "\<And>e. stable P (h e)"
  shows "stable P (catch_io m h)"
  unfolding stable_def
proof (intro allI impI)
  fix w assume p: "P w"
  obtain r w1 where m: "m w = (r, w1)" by (cases "m w")
  from stableD[OF assms(1) p] m have p1: "P w1" by simp
  show "P (snd (catch_io m h w))"
  proof (cases r)
    case (Inl e)
    then show ?thesis using m stableD[OF assms(2) p1, of e] by (simp add: catch_io_def)
  next
    case (Inr x)
    then show ?thesis using m p1 by (simp add: catch_io_def)
  qed
qed

lemma stable_case_option:
  assumes "stable P a" "\<And>x. stable P (b x)"
  shows "stable P (case v of None \<Rightarrow> a | Some x \<Rightarrow> b x)"
  using assms by (cases v) simp_all

lemma stable_case_sum:
  assumes "\<And>x. stable P (a x)" "\<And>x. stable P (b x)"
  shows "stable P (case v of Inl x \<Rightarrow> a x | Inr x \<Rightarrow> b x)"
  using assms by (cases v) simp_all

lemma stable_if:
  assumes "stable P a" "stable P b"
  shows "stable P (if c then a else b)"
  using assms by simp

lemma stable_readers:
  "stable P (toISOString d)" "stable P (toLocaleString d)" "stable P random48_hours"
  "stable P (readFile p)" "stable P (access p)" "stable P readFile_config"
  "stable P readFile_ips" "stable P access_config" "stable P access_ips" "stable P stat_config"
  by (simp_all add: stable_def toISOString_def toLocaleString_def random48_hours_def
        readFile_def access_def readFile_config_def readFile_ips_def
        access_config_def access_ips_def stat_config_def split: option.splits)

lemma stable_writers:
  assumes "quiet P"
  shows "stable P (console_log s)" "stable P (appendFile p d)" "stable P (writeFile p d)"
    "stable P (writeFile_report v)"
  using assms
  by (simp_all add: stable_def quiet_def console_log_def appendFile_def writeFile_def
        writeFile_report_def)

lemma stable_logger:
  assumes "quiet P"
  shows "stable P (logger_info m)" "stable P (logger_error m)"
  using assms
  by (simp_all add: stable_def quiet_def logger_info_eq logger_error_eq)

lemmas stable_intros =
  stable_return stable_throw stable_bind stable_then stable_catch stable_case_option
  stable_case_sum stable_if stable_readers stable_writers stable_logger

lemma stable_generateDnsmasqConfig:
  assumes "quiet P"
  shows "stable P (generateDnsmasqConfig cfg dl)"
  unfolding generateDnsmasqConfig_def
  by (intro stable_intros assms)

lemma stable_restartDnsmasq:
  assumes "quiet P"
  shows "stable P restartDnsmasq"
  unfolding restartDnsmasq_def
  by (intro stable_intros assms)

lemma stable_generateBypassReport:
  assumes "quiet P"
  shows "stable P (generateBypassReport dl)"
  unfolding generateBypassReport_def
  by (intro stable_intros assms)


lemma quiet_facts:
  "quiet (\<lambda>w. config_json w = v1)" "quiet (\<lambda>w. ips_json w = v2)" "quiet (\<lambda>w. denied w = v3)"
  "quiet (\<lambda>w. iso_time w = v4)" "quiet (\<lambda>w. config_json w \<noteq> Missing)"
  "quiet (\<lambda>w. ips_json w \<noteq> Missing)"
  "quiet (\<lambda>w. config_json w \<noteq> Missing \<and> ips_json w \<noteq> Missing \<and> Q (config_json w) (ips_json w) (denied w))"
  by (simp_all add: quiet_def)

lemma stable_ensureConfigExists:
  assumes "\<And>w. P w \<Longrightarrow> config_json w \<noteq> Missing \<and> ips_json w \<noteq> Missing"
  shows "stable P ensureConfigExists"
  using assms by (simp add: stable_def ensureConfigExists_present)

lemma stable_getters:
  assumes "\<And>w. P w \<Longrightarrow> config_json w \<noteq> Missing \<and> ips_json w \<noteq> Missing"
  shows "stable P getConfig" "stable P getDomainList"
  unfolding getConfig_def getDomainList_def
  by (intro stable_intros stable_ensureConfigExists assms; assumption)+

lemma stable_updateDNSConfig:
  assumes "quiet P" "\<And>w. P w \<Longrightarrow> config_json w \<noteq> Missing \<and> ips_json w \<noteq> Missing"
  shows "stable P updateDNSConfig"
  unfolding updateDNSConfig_def
  by (intro stable_intros stable_getters stable_generateDnsmasqConfig stable_restartDnsmasq
        stable_generateBypassReport assms(1); rule assms(2); assumption)

lemma getConfig_Holds:
  assumes "config_json w = Holds cfg" "ips_json w \<noteq> Missing"
  shows "getConfig w = (Inr cfg, w)"
  using assms by (simp add: getConfig_def io_defs ensureConfigExists_present readFile_config_def)

lemma getDomainList_present:
  assumes "ips_json w = Holds dl" "config_json w \<noteq> Missing"
  shows "getDomainList w = (Inr dl, w)"
  using assms by (simp add: getDomainList_def io_defs ensureConfigExists_present readFile_ips_def)

lemma restartDnsmasq_ok:
  assumes "\<not> denied w dnsLogPath"
  shows "fst (restartDnsmasq w) = Inr True"
  using assms
  by (simp add: restartDnsmasq_def io_defs logger_info_eq toISOString_def appendFile_def)

lemma generateBypassReport_total: "fst (generateBypassReport dl w) = Inr ()"
  by (simp add: generateBypassReport_def io_defs toISOString_def writeFile_report_def
        logger_info_eq logger_error_eq)

lemma updateDNSConfig_ok:
  assumes "config_json w = Holds cfg" "dnsServer cfg = Some ds" "alternativeDNS cfg = Some alts"
    "ips_json w = Holds dl" "\<not> denied w CUSTOM_CONFIG_FILE" "\<not> denied w dnsLogPath"
  shows "fst (updateDNSConfig w) = Inr True"
proof -
  have gc: "getConfig w = (Inr cfg, w)"
    using assms(1,4) by (simp add: getConfig_Holds)
  have gd: "getDomainList w = (Inr dl, w)"
    using assms(1,4) by (simp add: getDomainList_present)
  obtain c where c: "configContent (iso_time w 0) cfg dl = Inr c"
    using configContent_eq[OF assms(2,3)] by blast
  obtain w1 where g: "generateDnsmasqConfig cfg dl w = (Inr (), w1)"
    using generateDnsmasqConfig_ok(1)[OF c assms(5)] by (cases "generateDnsmasqConfig cfg dl w") auto
  have "denied w1 = denied w"
    using stableD[OF stable_generateDnsmasqConfig[of "\<lambda>v. denied v = denied w" cfg dl], of w] g
    by (simp add: quiet_facts)
  then have "\<not> denied w1 dnsLogPath" using assms(6) by simp
  from restartDnsmasq_ok[OF this] obtain w2 where r: "restartDnsmasq w1 = (Inr True, w2)"
    by (cases "restartDnsmasq w1") auto
  obtain w3 where b: "generateBypassReport dl w2 = (Inr (), w3)"
    using generateBypassReport_total[of dl w2] by (cases "generateBypassReport dl w2") auto
  show ?thesis
    by (simp add: updateDNSConfig_def io_defs gc gd g r b logger_info_eq)
qed

lemma saveConfig_ok:
  assumes "\<not> denied w CONFIG_PATH"
  shows "fst (saveConfig s w) = Inr True"
    and "config_json (snd (saveConfig s w)) = Holds s"
    and "ips_json (snd (saveConfig s w)) = ips_json w"
    and "denied (snd (saveConfig s w)) = denied w"
  using assms
  by (simp_all add: saveConfig_def io_defs writeFile_config_def logger_info_eq)

lemma api_post_settings_accepts:
  assumes "dnsServer s = Some ds" "alternativeDNS s = Some alts" "webInterface s = Some wi"
    "ips_json w = Holds dl" "\<not> denied w CONFIG_PATH" "\<not> denied w CUSTOM_CONFIG_FILE"
    "\<not> denied w dnsLogPath"
  shows "fst (api_post_settings s w) = success ''Settings updated successfully''"
    and "config_json (snd (api_post_settings s w)) = Holds s"
proof -
  note sv = saveConfig_ok[OF assms(5), of s]
  obtain w1 where s1: "saveConfig s w = (Inr True, w1)"
    using sv(1) by (cases "saveConfig s w") auto
  have w1: "config_json w1 = Holds s" "ips_json w1 = Holds dl" "denied w1 = denied w"
    using sv(2,3,4) s1 assms(4) by simp_all
  have "fst (updateDNSConfig w1) = Inr True"
    using updateDNSConfig_ok[OF w1(1) assms(1,2) w1(2)] assms(6,7) w1(3) by simp
  then obtain w2 where u: "updateDNSConfig w1 = (Inr True, w2)"
    by (cases "updateDNSConfig w1") auto
  have "config_json w2 = Holds s"
    using stableD[OF stable_updateDNSConfig[of "\<lambda>v. config_json v = Holds s \<and> ips_json v = Holds dl"], of w1]
      u w1
    by (simp add: quiet_def)
  then show "fst (api_post_settings s w) = success ''Settings updated successfully''"
    and "config_json (snd (api_post_settings s w)) = Holds s"
    using assms(1,2,3) by (simp_all add: api_post_settings_def respond_def io_defs s1 u)
qed

subsection \<open>Matching, validation, status and settings\<close>

lemma generated_domain_section:
  assumes "dnsServer appConfig = Some ds" "alternativeDNS appConfig = Some alts"
    "\<not> denied v CUSTOM_CONFIG_FILE" "domains dl \<noteq> []"
  shows "\<exists>c. fst (generateDnsmasqConfig appConfig dl v) = Inr () \<and>
           texts (snd (generateDnsmasqConfig appConfig dl v)) CUSTOM_CONFIG_FILE = Some c \<and>
           suffix (''# Domain specific configurations'' @ [nl]
                     @ concat (map (\<lambda>e. ''server=/'' @ domain e @ ''/'' @ resolveVia e @ [nl])
                                 (domains dl))) c"
proof -
  define tail_part where "tail_part = ''# Domain specific configurations'' @ [nl]
                     @ concat (map (\<lambda>e. ''server=/'' @ domain e @ ''/'' @ resolveVia e @ [nl])
                                 (domains dl))"
  have "\<exists>pre. configContent (iso_time v 0) appConfig dl = Inr (pre @ tail_part)"
    by (rule exI[of _ "''# Smart DNS Proxy Configuration'' @ [nl] @ ''# Generated at ''
            @ iso_time v 0 @ [nl, nl]
            @ ''# Basic configuration'' @ [nl]
            @ ''port='' @ string_of_int (port ds) @ [nl]
            @ ''cache-size='' @ string_of_int (cacheSize ds) @ [nl]
            @ ''log-queries='' @ (if logQueries ds then ''true'' else ''false'') @ [nl, nl]
            @ ''# Alternative DNS servers'' @ [nl]
            @ concat (map (\<lambda>dns. ''server='' @ dns @ [nl]) alts) @ [nl]"])
       (simp add: configContent_eq[OF assms(1,2)] assms(4) tail_part_def)
  then obtain pre where c: "configContent (iso_time v 0) appConfig dl = Inr (pre @ tail_part)"
    by blast
  note gen = generateDnsmasqConfig_ok[OF c assms(3)]
  have "suffix tail_part (pre @ tail_part)" by (rule suffixI) simp
  with gen show ?thesis unfolding tail_part_def by blast
qed

text \<open>
  Claim C2 fails as stated. The only domain matching of the repository is the test
  \<open>d.domain === domain\<close> of \<open>addDomain\<close>. With an override for \<open>netflix.com\<close> alone,
  \<open>addDomain\<close> of \<open>www.netflix.com\<close> finds no entry and appends a new one, where the
  longest-suffix policy of the specification finds the entry of \<open>netflix.com\<close>.
\<close>

theorem C2_suffix_fallback_counterexample:
  "fst (config_addDomain ''www.netflix.com'' ''8.8.8.8'' world_netflix_only) =
     Inr \<lparr>domains = [\<lparr>domain = ''netflix.com'', resolveVia = ''1.1.1.1''\<rparr>,
                      \<lparr>domain = ''www.netflix.com'', resolveVia = ''8.8.8.8''\<rparr>]\<rparr> \<and>
   findIndex (\<lambda>e. domain e = ''www.netflix.com'')
     [\<lparr>domain = ''netflix.com'', resolveVia = ''1.1.1.1''\<rparr>] = None \<and>
   spec_resolveTarget [\<lparr>domain = ''netflix.com'', resolveVia = ''1.1.1.1''\<rparr>] ''www.netflix.com''
     = Some ''1.1.1.1''"
proof -
  have h: "ips_json world_netflix_only =
             Holds \<lparr>domains = [\<lparr>domain = ''netflix.com'', resolveVia = ''1.1.1.1''\<rparr>]\<rparr>"
    "\<not> denied world_netflix_only IPS_PATH" "\<not> denied world_netflix_only CONFIG_PATH"
    by (simp_all add: world_netflix_only_def world0_def)
  show ?thesis
    by (simp add: config_addDomain_ok(1)[OF h] spec_resolveTarget_def parent_suffixes.simps)
qed

text \<open>
  Claim C2, amended. The domain matching of \<open>addDomain\<close> is exact string equality and
  no parent suffix is tried. On a domain list that can be read and written: when no entry
  has the very domain given, the new entry is appended and every entry of the list, that
  of a parent domain included, is left as it was; when some entry has it, the first such
  entry is replaced in place and no other entry changes. The resulting list is returned
  and stored, and whenever the forwarder configuration generated from it can be written
  (settings with the sections \<open>dnsServer\<close> and \<open>alternativeDNS\<close>), the file ends with the
  heading of the domain section followed by exactly one line
  \<open>server=/domain/resolveVia\<close> per entry, in the order of the list. So with overrides for
  both \<open>netflix.com\<close> and \<open>www.netflix.com\<close> each domain has its own entry and its own
  line.
\<close>

theorem C2_addDomain_matches_exactly:
  assumes "ips_json w = Holds dl" "\<not> denied w IPS_PATH" "\<not> denied w CONFIG_PATH"
  shows "\<exists>ds'. fst (config_addDomain d via w) = Inr \<lparr>domains = ds'\<rparr> \<and>
           ips_json (snd (config_addDomain d via w)) = Holds \<lparr>domains = ds'\<rparr> \<and>
           (d \<notin> set (map domain (domains dl)) \<longrightarrow>
              ds' = domains dl @ [\<lparr>domain = d, resolveVia = via\<rparr>]) \<and>
           (d \<in> set (map domain (domains dl)) \<longrightarrow>
              (\<exists>i<length (domains dl).
                  domain (domains dl ! i) = d \<and> (\<forall>j<i. domain (domains dl ! j) \<noteq> d) \<and>
                  ds' = (domains dl)[i := \<lparr>domain = d, resolveVia = via\<rparr>])) \<and>
           (\<forall>appConfig ds alts v.
              dnsServer appConfig = Some ds \<and> alternativeDNS appConfig = Some alts \<and>
              \<not> denied v CUSTOM_CONFIG_FILE \<longrightarrow>
              (\<exists>c. fst (generateDnsmasqConfig appConfig \<lparr>domains = ds'\<rparr> v) = Inr () \<and>
                 texts (snd (generateDnsmasqConfig appConfig \<lparr>domains = ds'\<rparr> v))
                   CUSTOM_CONFIG_FILE = Some c \<and>
                 suffix (''# Domain specific configurations'' @ [nl]
                           @ concat (map (\<lambda>e. ''server=/'' @ domain e @ ''/'' @ resolveVia e @ [nl])
                                       ds')) c))"
proof -
  define ds' where "ds' = (case findIndex (\<lambda>e. domain e = d) (domains dl) of
              Some i \<Rightarrow> (domains dl)[i := (domains dl ! i)\<lparr>resolveVia := via\<rparr>]
            | None \<Rightarrow> domains dl @ [\<lparr>domain = d, resolveVia = via\<rparr>])"
  note ok = config_addDomain_ok[OF assms, of d via, folded ds'_def]
  have absent: "ds' = domains dl @ [\<lparr>domain = d, resolveVia = via\<rparr>]"
    if "d \<notin> set (map domain (domains dl))"
  proof -
    from that have "findIndex (\<lambda>e. domain e = d) (domains dl) = None"
      by (auto simp add: findIndex_None)
    then show ?thesis by (simp add: ds'_def)
  qed
  have present: "\<exists>i<length (domains dl).
                  domain (domains dl ! i) = d \<and> (\<forall>j<i. domain (domains dl ! j) \<noteq> d) \<and>
                  ds' = (domains dl)[i := \<lparr>domain = d, resolveVia = via\<rparr>]"
    if "d \<in> set (map domain (domains dl))"
  proof -
    from that obtain i where f: "findIndex (\<lambda>e. domain e = d) (domains dl) = Some i"
      by (cases "findIndex (\<lambda>e. domain e = d) (domains dl)") (auto simp add: findIndex_None)
    from findIndex_Some[OF f] have i: "i < length (domains dl)" "domain (domains dl ! i) = d"
      "\<forall>j<i. domain (domains dl ! j) \<noteq> d" by auto
    have "(domains dl ! i)\<lparr>resolveVia := via\<rparr> = \<lparr>domain = d, resolveVia = via\<rparr>"
      using i(2) by (cases "domains dl ! i") simp
    then have "ds' = (domains dl)[i := \<lparr>domain = d, resolveVia = via\<rparr>]"
      by (simp add: ds'_def f)
    with i show ?thesis by blast
  qed
  have ne: "ds' \<noteq> []"
    by (cases "findIndex (\<lambda>e. domain e = d) (domains dl)")
       (auto simp add: ds'_def dest: findIndex_Some)
  have gen: "\<exists>c. fst (generateDnsmasqConfig appConfig \<lparr>domains = ds'\<rparr> v) = Inr () \<and>
                 texts (snd (generateDnsmasqConfig appConfig \<lparr>domains = ds'\<rparr> v))
                   CUSTOM_CONFIG_FILE = Some c \<and>
                 suffix (''# Domain specific configurations'' @ [nl]
                           @ concat (map (\<lambda>e. ''server=/'' @ domain e @ ''/'' @ resolveVia e @ [nl])
                                       ds')) c"
    if "dnsServer appConfig = Some ds" "alternativeDNS appConfig = Some alts"
       "\<not> denied v CUSTOM_CONFIG_FILE" for appConfig ds alts v
    using generated_domain_section[OF that, of "\<lparr>domains = ds'\<rparr>"] ne by simp
  show ?thesis
    using ok absent present gen by (intro exI[of _ ds']) blast
qed

theorem C2_addDomain_matches_exactly_witness:
  "ips_json world_netflix_only =
     Holds \<lparr>domains = [\<lparr>domain = ''netflix.com'', resolveVia = ''1.1.1.1''\<rparr>]\<rparr> \<and>
   \<not> denied world_netflix_only IPS_PATH \<and> \<not> denied world_netflix_only CONFIG_PATH \<and>
   ''www.netflix.com'' \<notin> set (map domain [\<lparr>domain = ''netflix.com'', resolveVia = ''1.1.1.1''\<rparr>]) \<and>
   fst (config_addDomain ''www.netflix.com'' ''8.8.8.8'' world_netflix_only) =
     Inr \<lparr>domains = [\<lparr>domain = ''netflix.com'', resolveVia = ''1.1.1.1''\<rparr>,
                      \<lparr>domain = ''www.netflix.com'', resolveVia = ''8.8.8.8''\<rparr>]\<rparr> \<and>
   dnsServer defaultConfig = Some \<lparr>port = 53, cacheSize = 1000, logQueries = True\<rparr> \<and>
   alternativeDNS defaultConfig = Some [''8.8.8.8'', ''1.1.1.1''] \<and>
   \<not> denied world0 CUSTOM_CONFIG_FILE \<and>
   (\<exists>c. texts (snd (generateDnsmasqConfig defaultConfig
                \<lparr>domains = [\<lparr>domain = ''netflix.com'', resolveVia = ''1.1.1.1''\<rparr>,
                             \<lparr>domain = ''www.netflix.com'', resolveVia = ''8.8.8.8''\<rparr>]\<rparr>
                world0)) CUSTOM_CONFIG_FILE = Some c \<and>
        suffix (''# Domain specific configurations'' @ [nl]
                  @ ''server=/netflix.com/1.1.1.1'' @ [nl]
                  @ ''server=/www.netflix.com/8.8.8.8'' @ [nl]) c) \<and>
   ips_json world0 = Holds defaultIpList \<and>
   ''netflix.com'' \<in> set (map domain (domains defaultIpList)) \<and>
   fst (config_addDomain ''netflix.com'' ''9.9.9.9'' world0) =
     Inr \<lparr>domains = [\<lparr>domain = ''netflix.com'', resolveVia = ''9.9.9.9''\<rparr>,
                      \<lparr>domain = ''spotify.com'', resolveVia = ''8.8.8.8''\<rparr>]\<rparr>"
proof -
  let ?n = "\<lparr>domain = ''netflix.com'', resolveVia = ''1.1.1.1''\<rparr>"
  let ?w = "\<lparr>domain = ''www.netflix.com'', resolveVia = ''8.8.8.8''\<rparr>"
  have h: "ips_json world_netflix_only = Holds \<lparr>domains = [?n]\<rparr>"
    "\<not> denied world_netflix_only IPS_PATH" "\<not> denied world_netflix_only CONFIG_PATH"
    by (simp_all add: world_netflix_only_def world0_def)
  have g: "dnsServer defaultConfig = Some \<lparr>port = 53, cacheSize = 1000, logQueries = True\<rparr>"
    "alternativeDNS defaultConfig = Some [''8.8.8.8'', ''1.1.1.1'']"
    "\<not> denied world0 CUSTOM_CONFIG_FILE"
    by (simp_all add: defaultConfig_def world0_def)
  have k: "ips_json world0 = Holds defaultIpList"
    "\<not> denied world0 IPS_PATH" "\<not> denied world0 CONFIG_PATH"
    by (simp_all add: world0_def)
  have a: "''www.netflix.com'' \<notin> set (map domain [?n])" by simp
  have p: "''netflix.com'' \<in> set (map domain (domains defaultIpList))"
    by (simp add: defaultIpList_def)
  from C2_addDomain_matches_exactly[OF h, of "''www.netflix.com''" "''8.8.8.8''"] a
  obtain ds' where
    r1: "fst (config_addDomain ''www.netflix.com'' ''8.8.8.8'' world_netflix_only)
           = Inr \<lparr>domains = ds'\<rparr>" and e1: "ds' = [?n, ?w]" and
    g1: "\<forall>appConfig ds alts v.
              dnsServer appConfig = Some ds \<and> alternativeDNS appConfig = Some alts \<and>
              \<not> denied v CUSTOM_CONFIG_FILE \<longrightarrow>
              (\<exists>c. fst (generateDnsmasqConfig appConfig \<lparr>domains = ds'\<rparr> v) = Inr () \<and>
                 texts (snd (generateDnsmasqConfig appConfig \<lparr>domains = ds'\<rparr> v))
                   CUSTOM_CONFIG_FILE = Some c \<and>
                 suffix (''# Domain specific configurations'' @ [nl]
                           @ concat (map (\<lambda>e. ''server=/'' @ domain e @ ''/'' @ resolveVia e @ [nl])
                                       ds')) c)"
    by auto
  from g1 g obtain c where
    c: "texts (snd (generateDnsmasqConfig defaultConfig \<lparr>domains = ds'\<rparr> world0))
                   CUSTOM_CONFIG_FILE = Some c"
       "suffix (''# Domain specific configurations'' @ [nl]
                           @ concat (map (\<lambda>e. ''server=/'' @ domain e @ ''/'' @ resolveVia e @ [nl])
                                       ds')) c"
    by blast
  have gen: "\<exists>c. texts (snd (generateDnsmasqConfig defaultConfig \<lparr>domains = [?n, ?w]\<rparr>
                world0)) CUSTOM_CONFIG_FILE = Some c \<and>
        suffix (''# Domain specific configurations'' @ [nl]
                  @ ''server=/netflix.com/1.1.1.1'' @ [nl]
                  @ ''server=/www.netflix.com/8.8.8.8'' @ [nl]) c"
    using c unfolding e1 by (intro exI[of _ c]) simp
  from C2_addDomain_matches_exactly[OF k, of "''netflix.com''" "''9.9.9.9''"] p
  obtain ds2 i where
    r2: "fst (config_addDomain ''netflix.com'' ''9.9.9.9'' world0) = Inr \<lparr>domains = ds2\<rparr>" and
    i: "i < length (domains defaultIpList)" "domain (domains defaultIpList ! i) = ''netflix.com''" and
    e2: "ds2 = (domains defaultIpList)[i := \<lparr>domain = ''netflix.com'', resolveVia = ''9.9.9.9''\<rparr>]"
    by auto
  from i have "i = 0"
    by (cases i) (simp_all add: defaultIpList_def)
  with e2 have e2': "ds2 = [\<lparr>domain = ''netflix.com'', resolveVia = ''9.9.9.9''\<rparr>,
                      \<lparr>domain = ''spotify.com'', resolveVia = ''8.8.8.8''\<rparr>]"
    by (simp add: defaultIpList_def)
  show ?thesis
    using h g k(1) a p r1 e1 gen r2 e2' by simp
qed

text \<open>
  Claim C10 at two stored configurations that differ only in the password: with the
  password \<open>admin\<close> the response has no password, with the empty password the response
  carries \<open>password: ""\<close>, since the test \<open>settings.webInterface.password\<close> is false for
  the empty string and the property is then not deleted.
\<close>

theorem C10_empty_password_returned:
  "fst (api_get_settings (world0\<lparr>config_json := Holds empty_password_config\<rparr>)) =
     \<lparr>status = 200,
      body = JObj [(''dnsServer'', JObj [(''port'', JNum 53), (''cacheSize'', JNum 1000),
                                        (''logQueries'', JBool True)]),
                   (''alternativeDNS'', JArr [JStr ''8.8.8.8'', JStr ''1.1.1.1'']),
                   (''webInterface'', JObj [(''port'', JNum 5000), (''enableAuth'', JBool False),
                                           (''username'', JStr ''admin''),
                                           (''password'', JStr [])])]\<rparr> \<and>
   fst (api_get_settings world0) =
     \<lparr>status = 200,
      body = JObj [(''dnsServer'', JObj [(''port'', JNum 53), (''cacheSize'', JNum 1000),
                                        (''logQueries'', JBool True)]),
                   (''alternativeDNS'', JArr [JStr ''8.8.8.8'', JStr ''1.1.1.1'']),
                   (''webInterface'', JObj [(''port'', JNum 5000), (''enableAuth'', JBool False),
                                           (''username'', JStr ''admin'')])]\<rparr>"
proof -
  have g: "fst (api_get_settings w) = \<lparr>status = 200, body = settings_json (delete_password cfg)\<rparr>"
    if "getConfig w = (Inr cfg, w)" for w cfg
    using that by (simp add: api_get_settings_def respond_def io_defs)
  have 1: "getConfig (world0\<lparr>config_json := Holds empty_password_config\<rparr>)
             = (Inr empty_password_config, world0\<lparr>config_json := Holds empty_password_config\<rparr>)"
    by (rule getConfig_Holds) (simp_all add: world0_def)
  have 2: "getConfig world0 = (Inr defaultConfig, world0)"
    by (rule getConfig_Holds) (simp_all add: world0_def)
  show ?thesis
    unfolding g[OF 1] g[OF 2]
    by (simp add: settings_json_def delete_password_def empty_password_config_def
          defaultConfig_def opt_field_def dns_server_json_def web_interface_json_def)
qed

text \<open>
  The two responses agree whenever both passwords are not empty: the password is then
  deleted before the settings are printed.
\<close>

lemma api_get_settings_hides_nonempty_password:
  assumes "webInterface cfg = Some wi" "p1 \<noteq> []" "p2 \<noteq> []" "ips_json w \<noteq> Missing"
  shows "fst (api_get_settings
                (w\<lparr>config_json := Holds (cfg\<lparr>webInterface := Some (wi\<lparr>password := Some p1\<rparr>)\<rparr>)\<rparr>))
       = fst (api_get_settings
                (w\<lparr>config_json := Holds (cfg\<lparr>webInterface := Some (wi\<lparr>password := Some p2\<rparr>)\<rparr>)\<rparr>))"
proof -
  have g: "fst (api_get_settings v) = \<lparr>status = 200, body = settings_json (delete_password c)\<rparr>"
    if "config_json v = Holds c" "ips_json v \<noteq> Missing" for v c
    using getConfig_Holds[OF that] by (simp add: api_get_settings_def respond_def io_defs)
  have d: "delete_password (cfg\<lparr>webInterface := Some (wi\<lparr>password := Some p\<rparr>)\<rparr>)
             = cfg\<lparr>webInterface := Some (wi\<lparr>password := None\<rparr>)\<rparr>" if "p \<noteq> []" for p
    using that by (simp add: delete_password_def)
  show ?thesis
    using assms by (simp add: g d)
qed

lemma respond_not_400:
  assumes "\<And>r w'. m w = (Inr r, w') \<Longrightarrow> status r \<noteq> 400"
  shows "status (fst (respond m place msg w)) \<noteq> 400"
proof (cases "m w")
  case (Pair res w')
  then show ?thesis
    using assms by (cases res) (simp_all add: respond_def failure_def)
qed

lemma then_return:
  assumes "then_io m (return_io v) w = (Inr r, w')"
  shows "r = v"
  using assms by (auto simp add: io_defs split: prod.splits sum.splits)

lemma then_then_return:
  assumes "then_io m (then_io n (return_io v)) w = (Inr r, w')"
  shows "r = v"
  using assms by (auto simp add: io_defs split: prod.splits sum.splits)

lemma api_post_settings_status:
  "status (fst (api_post_settings s w)) = 400 \<longleftrightarrow>
     dnsServer s = None \<or> alternativeDNS s = None \<or> webInterface s = None"
proof (cases "dnsServer s = None \<or> alternativeDNS s = None \<or> webInterface s = None")
  case True
  then show ?thesis by (simp add: api_post_settings_def bad_request_def)
next
  case False
  have "status (fst (respond (then_io (saveConfig s) (then_io updateDNSConfig
           (return_io (success ''Settings updated successfully''))))
          ''Error in POST /api/settings: '' ''Failed to update settings'' w)) \<noteq> 400"
    by (rule respond_not_400) (auto dest!: then_then_return simp add: success_def)
  with False show ?thesis by (auto simp add: api_post_settings_def)
qed

lemma api_post_domains_accepted:
  assumes "status (fst (api_post_domains b w)) \<noteq> 400"
  shows "\<exists>d via. body_domain b = Some d \<and> body_resolveVia b = Some via \<and> d \<noteq> [] \<and> via \<noteq> []
           \<and> test DOMAIN_RE d \<and> test IP_RE via"
  using assms
  by (auto simp add: api_post_domains_def bad_request_def split: option.splits if_splits)

lemma api_post_domains_rejected:
  assumes "status (fst (api_post_domains b w)) = 400"
  shows "snd (api_post_domains b w) = w"
proof (cases "\<exists>d via. body_domain b = Some d \<and> body_resolveVia b = Some via \<and> d \<noteq> [] \<and> via \<noteq> []
           \<and> test DOMAIN_RE d \<and> test IP_RE via")
  case False
  then show ?thesis
    by (auto simp add: api_post_domains_def split: option.splits if_splits)
next
  case True
  then obtain d via where v: "body_domain b = Some d" "body_resolveVia b = Some via" "d \<noteq> []"
    "via \<noteq> []" "test DOMAIN_RE d" "test IP_RE via" by blast
  have "status (fst (respond (then_io (dnsconfig_addDomain d via)
                    (return_io (success ''Domain added successfully'')))
                 ''Error in POST /api/domains: '' ''Failed to add domain'' w)) \<noteq> 400"
    by (rule respond_not_400) (auto dest!: then_return simp add: success_def)
  with v assms show ?thesis by (simp add: api_post_domains_def)
qed

text \<open>
  Claim C8 fails as stated: the settings-update operation answers 200 to settings with the
  DNS port 99999 and the resolver \<open>not an address\<close>, and stores them.
\<close>

theorem C8_settings_unvalidated_counterexample:
  "fst (api_post_settings unchecked_settings world0) = success ''Settings updated successfully'' \<and>
   status (success ''Settings updated successfully'') = 200 \<and>
   config_json (snd (api_post_settings unchecked_settings world0)) = Holds unchecked_settings \<and>
   map_option port (dnsServer unchecked_settings) = Some 99999 \<and>
   \<not> spec_valid_port 99999 \<and>
   alternativeDNS unchecked_settings = Some [''not an address'']"
proof -
  have s: "dnsServer unchecked_settings = Some \<lparr>port = 99999, cacheSize = - 5, logQueries = True\<rparr>"
    "alternativeDNS unchecked_settings = Some [''not an address'']"
    "webInterface unchecked_settings = Some \<lparr>web_port = 0, enableAuth = False,
        username = ''admin'', password = None\<rparr>"
    by (simp_all add: unchecked_settings_def)
  have w: "ips_json world0 = Holds defaultIpList" "\<not> denied world0 CONFIG_PATH"
    "\<not> denied world0 CUSTOM_CONFIG_FILE" "\<not> denied world0 dnsLogPath"
    by (simp_all add: world0_def)
  from api_post_settings_accepts[OF s w] s show ?thesis
    by (simp add: success_def spec_valid_port_def)
qed

text \<open>
  Claim C8, amended. The settings-update operation rejects with 400 exactly the bodies
  that lack one of the sections \<open>dnsServer\<close>, \<open>alternativeDNS\<close>, \<open>webInterface\<close>, and a
  rejection leaves the world as it was; ports and addresses are not examined. The
  domain-add operation answers other than 400 only when the domain and the resolver are
  present and not empty, the domain matches the domain pattern and the resolver matches
  the pattern of four groups of one to three digits; a rejection with 400 leaves the world
  as it was.
\<close>

theorem C8_validation_as_implemented:
  "(status (fst (api_post_settings s w)) = 400 \<longleftrightarrow>
      dnsServer s = None \<or> alternativeDNS s = None \<or> webInterface s = None) \<and>
   (status (fst (api_post_settings s w)) = 400 \<longrightarrow> snd (api_post_settings s w) = w) \<and>
   (status (fst (api_post_domains b w)) \<noteq> 400 \<longrightarrow>
      (\<exists>d via. body_domain b = Some d \<and> body_resolveVia b = Some via \<and> d \<noteq> [] \<and> via \<noteq> []
           \<and> test DOMAIN_RE d \<and> test IP_RE via)) \<and>
   (status (fst (api_post_domains b w)) = 400 \<longrightarrow> snd (api_post_domains b w) = w)"
proof (intro conjI impI)
  show "status (fst (api_post_settings s w)) = 400 \<longleftrightarrow>
      dnsServer s = None \<or> alternativeDNS s = None \<or> webInterface s = None"
    by (rule api_post_settings_status)
  show "snd (api_post_settings s w) = w" if "status (fst (api_post_settings s w)) = 400"
    using that unfolding api_post_settings_status by (auto simp add: api_post_settings_def)
  show "\<exists>d via. body_domain b = Some d \<and> body_resolveVia b = Some via \<and> d \<noteq> [] \<and> via \<noteq> []
           \<and> test DOMAIN_RE d \<and> test IP_RE via"
    if "status (fst (api_post_domains b w)) \<noteq> 400"
    using that by (rule api_post_domains_accepted)
  show "snd (api_post_domains b w) = w" if "status (fst (api_post_domains b w)) = 400"
    using that by (rule api_post_domains_rejected)
qed

theorem C8_validation_as_implemented_witness:
  "status (fst (api_post_settings (defaultConfig\<lparr>dnsServer := None\<rparr>) world0)) = 400 \<and>
   snd (api_post_settings (defaultConfig\<lparr>dnsServer := None\<rparr>) world0) = world0 \<and>
   status (fst (api_post_domains
      \<lparr>body_domain = Some ''hulu.com'', body_resolveVia = Some ''1.1.1.1''\<rparr> world0)) \<noteq> 400 \<and>
   test DOMAIN_RE ''hulu.com'' \<and> test IP_RE ''1.1.1.1'' \<and>
   status (fst (api_post_domains
      \<lparr>body_domain = Some ''hulu'', body_resolveVia = Some ''1.1.1.1''\<rparr> world0)) = 400 \<and>
   snd (api_post_domains
      \<lparr>body_domain = Some ''hulu'', body_resolveVia = Some ''1.1.1.1''\<rparr> world0) = world0"
proof -
  let ?s = "defaultConfig\<lparr>dnsServer := None\<rparr>"
  let ?good = "\<lparr>body_domain = Some ''hulu.com'', body_resolveVia = Some ''1.1.1.1''\<rparr>"
  let ?bad = "\<lparr>body_domain = Some ''hulu'', body_resolveVia = Some ''1.1.1.1''\<rparr>"
  have t1: "test DOMAIN_RE ''hulu.com''" by code_simp
  have t2: "test IP_RE ''1.1.1.1''" by code_simp
  have t3: "\<not> test DOMAIN_RE ''hulu''" by code_simp
  have h1: "status (fst (api_post_settings ?s world0)) = 400"
    by (simp add: api_post_settings_def bad_request_def)
  have "status (fst (respond (then_io (dnsconfig_addDomain ''hulu.com'' ''1.1.1.1'')
                    (return_io (success ''Domain added successfully'')))
                 ''Error in POST /api/domains: '' ''Failed to add domain'' world0)) \<noteq> 400"
    by (rule respond_not_400) (auto dest!: then_return simp add: success_def)
  then have h2: "status (fst (api_post_domains ?good world0)) \<noteq> 400"
    by (simp add: api_post_domains_def t1 t2)
  have h3: "status (fst (api_post_domains ?bad world0)) = 400"
    by (simp add: api_post_domains_def t3 bad_request_def)
  from C8_validation_as_implemented[of ?s world0 ?good] C8_validation_as_implemented[of ?s world0 ?bad] h1 h2 h3 t1 t2
  show ?thesis by simp
qed










subsection \<open>The matcher decides the language of the pattern\<close>

lemma concI: "xs \<in> A \<Longrightarrow> ys \<in> B \<Longrightarrow> xs @ ys \<in> conc A B"
  by (auto simp add: conc_def)

lemma concE:
  assumes "zs \<in> conc A B"
  obtains xs ys where "zs = xs @ ys" "xs \<in> A" "ys \<in> B"
  using assms by (auto simp add: conc_def)

lemma in_conc: "zs \<in> conc A B \<longleftrightarrow> (\<exists>u v. zs = u @ v \<and> u \<in> A \<and> v \<in> B)"
  by (auto simp add: conc_def)

lemma Nil_in_conc: "[] \<in> conc A B \<longleftrightarrow> [] \<in> A \<and> [] \<in> B"
  by (auto simp add: conc_def)

lemma Nil_in_power: "[] \<in> lang_power A k \<longleftrightarrow> k = 0 \<or> [] \<in> A"
  by (induction k) (auto simp add: Nil_in_conc)

lemma nullable_lang: "nullable r \<longleftrightarrow> [] \<in> lang r"
proof (induction r)
  case (Between lo hi r)
  show ?case
  proof
    assume "nullable (Between lo hi r)"
    then have "lo \<le> hi" "lo = 0 \<or> [] \<in> lang r" using Between by auto
    then have "[] \<in> lang_power (lang r) lo" by (auto simp add: Nil_in_power)
    with \<open>lo \<le> hi\<close> show "[] \<in> lang (Between lo hi r)" by auto
  next
    assume "[] \<in> lang (Between lo hi r)"
    then obtain k where k: "lo \<le> k" "k \<le> hi" "[] \<in> lang_power (lang r) k" by auto
    then have "lo = 0 \<or> [] \<in> lang r" by (auto simp add: Nil_in_power)
    with k Between show "nullable (Between lo hi r)" by auto
  qed
next
  case (AtLeast n r)
  show ?case
  proof
    assume "nullable (AtLeast n r)"
    then have "n = 0 \<or> [] \<in> lang r" using AtLeast by auto
    then have "[] \<in> lang_power (lang r) n" by (auto simp add: Nil_in_power)
    then show "[] \<in> lang (AtLeast n r)" by auto
  next
    assume "[] \<in> lang (AtLeast n r)"
    then obtain k where k: "n \<le> k" "[] \<in> lang_power (lang r) k" by auto
    then have "n = 0 \<or> [] \<in> lang r" by (auto simp add: Nil_in_power)
    with AtLeast show "nullable (AtLeast n r)" by auto
  qed
qed (auto simp add: Nil_in_conc)

lemma Cons_in_conc:
  "c # s \<in> conc A B \<longleftrightarrow>
     (\<exists>u v. s = u @ v \<and> c # u \<in> A \<and> v \<in> B) \<or> ([] \<in> A \<and> c # s \<in> B)"
proof
  assume "c # s \<in> conc A B"
  then obtain xs ys where x: "c # s = xs @ ys" "xs \<in> A" "ys \<in> B" by (rule concE)
  show "(\<exists>u v. s = u @ v \<and> c # u \<in> A \<and> v \<in> B) \<or> ([] \<in> A \<and> c # s \<in> B)"
  proof (cases xs)
    case Nil
    with x show ?thesis by simp
  next
    case (Cons a u)
    with x have "s = u @ ys" "c # u \<in> A" by simp_all
    with x(3) show ?thesis by blast
  qed
next
  assume "(\<exists>u v. s = u @ v \<and> c # u \<in> A \<and> v \<in> B) \<or> ([] \<in> A \<and> c # s \<in> B)"
  then show "c # s \<in> conc A B"
  proof
    assume "\<exists>u v. s = u @ v \<and> c # u \<in> A \<and> v \<in> B"
    then obtain u v where "s = u @ v" "c # u \<in> A" "v \<in> B" by blast
    then have "(c # u) @ v \<in> conc A B" by (intro concI)
    with \<open>s = u @ v\<close> show ?thesis by simp
  next
    assume "[] \<in> A \<and> c # s \<in> B"
    then have "[] @ (c # s) \<in> conc A B" by (intro concI) simp_all
    then show ?thesis by simp
  qed
qed

lemma Cons_in_power:
  assumes "c # s \<in> lang_power A k"
  shows "0 < k \<and> (\<exists>u v. s = u @ v \<and> c # u \<in> A \<and> v \<in> lang_power A (k - 1))"
  using assms
proof (induction k)
  case 0
  then show ?case by simp
next
  case (Suc k)
  then have "c # s \<in> conc A (lang_power A k)" by simp
  then consider (head) u v where "s = u @ v" "c # u \<in> A" "v \<in> lang_power A k"
    | (skip) "[] \<in> A" "c # s \<in> lang_power A k"
    by (auto simp add: Cons_in_conc)
  then show ?case
  proof cases
    case head
    then show ?thesis by auto
  next
    case skip
    from Suc.IH[OF skip(2)] obtain u v where
      k: "0 < k" and uv: "s = u @ v" "c # u \<in> A" "v \<in> lang_power A (k - 1)" by blast
    from skip(1) uv(3) have "[] @ v \<in> conc A (lang_power A (k - 1))" by (intro concI)
    with k have "v \<in> lang_power A k" by (cases k) simp_all
    with uv show ?thesis by auto
  qed
qed

lemma power_step:
  assumes "c # u \<in> A" "v \<in> lang_power A k"
  shows "c # u @ v \<in> lang_power A (Suc k)"
  using concI[OF assms] by simp

lemma deriv_lang: "lang (deriv c r) = {s. c # s \<in> lang r}"
proof (induction r)
  case (Seq r1 r2)
  have d: "s \<in> conc {t. c # t \<in> lang r1} (lang r2) \<longleftrightarrow>
             (\<exists>u v. s = u @ v \<and> c # u \<in> lang r1 \<and> v \<in> lang r2)" for s
    by (auto simp add: in_conc)
  show ?case
  proof (cases "nullable r1")
    case True
    then have "[] \<in> lang r1" by (simp add: nullable_lang)
    with True show ?thesis
      by (simp add: set_eq_iff Seq.IH d Cons_in_conc; blast?)
  next
    case False
    then have "[] \<notin> lang r1" by (simp add: nullable_lang)
    with False show ?thesis
      by (simp add: set_eq_iff Seq.IH d Cons_in_conc; blast?)
  qed
next
  case (Between lo hi r)
  show ?case
  proof (intro set_eqI iffI)
    fix s assume "s \<in> lang (deriv c (Between lo hi r))"
    then have hi: "hi \<noteq> 0" "lo \<le> hi"
      and "s \<in> conc (lang (deriv c r)) (\<Union>k\<in>{lo - 1..hi - 1}. lang_power (lang r) k)"
      by (auto split: if_splits)
    then obtain u v k where uv: "s = u @ v" "c # u \<in> lang r" "v \<in> lang_power (lang r) k"
      "lo - 1 \<le> k" "k \<le> hi - 1"
      using Between by (auto elim!: concE)
    from power_step[OF uv(2,3)] have "c # s \<in> lang_power (lang r) (Suc k)" by (simp add: uv(1))
    moreover have "lo \<le> Suc k" "Suc k \<le> hi" using uv(4,5) hi by auto
    ultimately have "\<exists>j\<in>{lo..hi}. c # s \<in> lang_power (lang r) j"
      by (intro bexI[of _ "Suc k"]) simp_all
    then show "s \<in> {s. c # s \<in> lang (Between lo hi r)}" by simp
  next
    fix s assume "s \<in> {s. c # s \<in> lang (Between lo hi r)}"
    then obtain k where k: "lo \<le> k" "k \<le> hi" "c # s \<in> lang_power (lang r) k" by auto
    from Cons_in_power[OF k(3)] obtain u v where
      uv: "0 < k" "s = u @ v" "c # u \<in> lang r" "v \<in> lang_power (lang r) (k - 1)" by blast
    have "u \<in> lang (deriv c r)" using uv(3) Between by simp
    moreover have "v \<in> (\<Union>k\<in>{lo - 1..hi - 1}. lang_power (lang r) k)"
      using uv(1,4) k(1,2) by (auto intro!: bexI[of _ "k - 1"])
    ultimately have "u @ v \<in> conc (lang (deriv c r)) (\<Union>k\<in>{lo - 1..hi - 1}. lang_power (lang r) k)"
      by (rule concI)
    moreover have "hi \<noteq> 0" "\<not> hi < lo" using uv(1) k by auto
    ultimately show "s \<in> lang (deriv c (Between lo hi r))" by (simp add: uv(2))
  qed
next
  case (AtLeast n r)
  show ?case
  proof (intro set_eqI iffI)
    fix s assume "s \<in> lang (deriv c (AtLeast n r))"
    then have "s \<in> conc (lang (deriv c r)) (\<Union>k\<in>{n - 1..}. lang_power (lang r) k)"
      by simp
    then obtain u v k where uv: "s = u @ v" "c # u \<in> lang r" "v \<in> lang_power (lang r) k"
      "n - 1 \<le> k"
      using AtLeast by (auto elim!: concE)
    from power_step[OF uv(2,3)] have "c # s \<in> lang_power (lang r) (Suc k)" by (simp add: uv(1))
    moreover have "n \<le> Suc k" using uv(4) by auto
    ultimately have "\<exists>j\<in>{n..}. c # s \<in> lang_power (lang r) j"
      by (intro bexI[of _ "Suc k"]) simp_all
    then show "s \<in> {s. c # s \<in> lang (AtLeast n r)}" by simp
  next
    fix s assume "s \<in> {s. c # s \<in> lang (AtLeast n r)}"
    then obtain k where k: "n \<le> k" "c # s \<in> lang_power (lang r) k" by auto
    from Cons_in_power[OF k(2)] obtain u v where
      uv: "0 < k" "s = u @ v" "c # u \<in> lang r" "v \<in> lang_power (lang r) (k - 1)" by blast
    have "u \<in> lang (deriv c r)" using uv(3) AtLeast by simp
    moreover have "v \<in> (\<Union>k\<in>{n - 1..}. lang_power (lang r) k)"
      using uv(1,4) k(1) by (auto intro!: bexI[of _ "k - 1"])
    ultimately have "u @ v \<in> conc (lang (deriv c r)) (\<Union>k\<in>{n - 1..}. lang_power (lang r) k)"
      by (rule concI)
    then show "s \<in> lang (deriv c (AtLeast n r))" by (simp add: uv(2))
  qed
qed auto

lemma test_lang: "test r s \<longleftrightarrow> s \<in> lang r"
proof (induction s arbitrary: r)
  case Nil
  show ?case by (simp add: test_def nullable_lang)
next
  case (Cons c s)
  have "test r (c # s) = test (deriv c r) s" by (simp add: test_def)
  also have "\<dots> \<longleftrightarrow> s \<in> lang (deriv c r)" by (rule Cons.IH)
  also have "\<dots> \<longleftrightarrow> c # s \<in> lang r" by (simp add: deriv_lang)
  finally show ?case .
qed

lemma power_alphabet:
  assumes "\<And>s. s \<in> A \<Longrightarrow> \<forall>c\<in>set s. P c" "s \<in> lang_power A k"
  shows "\<forall>c\<in>set s. P c"
  using assms(2)
proof (induction k arbitrary: s)
  case 0
  then show ?case by simp
next
  case (Suc k)
  then obtain xs ys where "s = xs @ ys" "xs \<in> A" "ys \<in> lang_power A k"
    by (auto elim!: concE)
  with assms(1)[of xs] Suc.IH[of ys] show ?case by auto
qed

lemma lang_alphabet: "s \<in> lang r \<Longrightarrow> \<forall>c\<in>set s. alphabet r c"
proof (induction r arbitrary: s)
  case (Seq r1 r2)
  then show ?case by (auto elim!: concE)
next
  case (Between lo hi r)
  then obtain k where "s \<in> lang_power (lang r) k" by auto
  from power_alphabet[OF Between.IH this] show ?case by simp
next
  case (AtLeast n r)
  then obtain k where "s \<in> lang_power (lang r) k" by auto
  from power_alphabet[OF AtLeast.IH this] show ?case by simp
qed auto

lemma accepted_characters:
  "test DOMAIN_RE d \<Longrightarrow> \<forall>c\<in>set d. alnum c \<or> c = CHR ''-'' \<or> c = CHR ''.''"
  "test IP_RE via \<Longrightarrow> \<forall>c\<in>set via. digit c \<or> c = CHR ''.''"
  using lang_alphabet[of d DOMAIN_RE] lang_alphabet[of via IP_RE]
  by (auto simp add: test_lang DOMAIN_RE_def IP_RE_def alnum_def alnum_hyphen_def alpha_def dot_def)

lemma accepted_single_line:
  "test DOMAIN_RE d \<Longrightarrow> nl \<notin> set d \<and> CHR ''/'' \<notin> set d"
  "test IP_RE via \<Longrightarrow> nl \<notin> set via \<and> CHR ''/'' \<notin> set via"
proof -
  have c: "\<not> alnum nl" "\<not> alnum (CHR ''/'')" "\<not> digit nl" "\<not> digit (CHR ''/'')"
    by (simp_all add: alnum_def lower_def upper_def digit_def)
  show "test DOMAIN_RE d \<Longrightarrow> nl \<notin> set d \<and> CHR ''/'' \<notin> set d"
    using accepted_characters(1)[of d] c(1,2) by fastforce
  show "test IP_RE via \<Longrightarrow> nl \<notin> set via \<and> CHR ''/'' \<notin> set via"
    using accepted_characters(2)[of via] c(3,4) by fastforce
qed

lemma pattern_examples:
  "test DOMAIN_RE ''netflix.com''"
  "test DOMAIN_RE ''www.netflix.com''"
  "test DOMAIN_RE ''my-site.co.uk''"
  "\<not> test DOMAIN_RE ''a.com''"
  "\<not> test DOMAIN_RE ''netflix''"
  "\<not> test DOMAIN_RE ''-ab.com''"
  "\<not> test DOMAIN_RE ''sub.domain1.com''"
  "\<not> test DOMAIN_RE (''netflix.com'' @ [nl])"
  "test IP_RE ''1.1.1.1''"
  "test IP_RE ''999.999.999.999''"
  "\<not> test IP_RE ''1.1.1''"
  "\<not> test IP_RE ''1.1.1.1234''"
  "\<not> test IP_RE ''1.1.1.1/x''"
  by code_simp+

end
